theory Spec2Isabelle
  imports Complex_Main "HOL-Library.Log_Nat"
begin

text \<open>
  A model of the DevDocs scraper of \<open>src/lib/devdocs-scraper.ts\<close>: the extraction of
  a page in \<open>scrapePage\<close>, the dedup decision of \<open>saveContent\<close>, the job updates and
  the batch loop of \<open>scrapeDoc\<close>. The network and the two stores are explicit: what they
  answer is a parameter of a run, what they hold is part of its state.
\<close>

section \<open>Strings as the scraper uses them\<close>

text \<open>
  JavaScript strings are modelled as \<^typ>\<open>string\<close>, one \<^typ>\<open>char\<close> per code unit. A
  \<^typ>\<open>char\<close> has eight bits, so the strings of the model are the JavaScript strings whose
  code units lie in \<open>U+0000\<close> to \<open>U+00FF\<close>; a page with a code unit beyond that range is
  outside the model. On this range the character classes are those of JavaScript:
  white space (\<open>\s\<close> in a regular expression, and what \<open>trim\<close> strips) is tab, line
  feed, vertical tab, form feed, carriage return, space and the no-break space
  \<open>U+00A0\<close>; \<open>\w\<close> is an ASCII letter, a digit or the underscore; \<open>toLowerCase\<close> maps
  \<open>A-Z\<close> to \<open>a-z\<close> and the capital letters \<open>U+00C0\<close> to \<open>U+00DE\<close>, without the
  multiplication sign \<open>U+00D7\<close>, to the letters 32 places further on.
\<close>

definition is_space :: "char \<Rightarrow> bool" where
  "is_space c = (let n = (of_char c :: nat) in (9 \<le> n \<and> n \<le> 13) \<or> n = 32 \<or> n = 160)"

definition is_word :: "char \<Rightarrow> bool" where
  "is_word c = (let n = (of_char c :: nat) in
     (48 \<le> n \<and> n \<le> 57) \<or> (65 \<le> n \<and> n \<le> 90) \<or> n = 95 \<or> (97 \<le> n \<and> n \<le> 122))"

definition is_digit :: "char \<Rightarrow> bool" where
  "is_digit c = (let n = (of_char c :: nat) in 48 \<le> n \<and> n \<le> 57)"

definition to_lower :: "char \<Rightarrow> char" where
  "to_lower c = (let n = (of_char c :: nat) in
     if (65 \<le> n \<and> n \<le> 90) \<or> (192 \<le> n \<and> n \<le> 222 \<and> n \<noteq> 215) then char_of (n + 32) else c)"

definition toLowerCase :: "string \<Rightarrow> string" where
  "toLowerCase s = map to_lower s"

definition trim :: "string \<Rightarrow> string" where
  "trim s = rev (dropWhile is_space (rev (dropWhile is_space s)))"

text \<open>
  \<open>s.split(/C+/)\<close> for a character class \<open>C\<close>: the pieces between the maximal runs of
  separator characters. A separator at the start or the end leaves an empty piece there,
  and the empty string splits into one empty piece.
\<close>

fun split_runs :: "(char \<Rightarrow> bool) \<Rightarrow> bool \<Rightarrow> string \<Rightarrow> string \<Rightarrow> string list" where
  "split_runs sep in_sep cur [] = [cur]"
| "split_runs sep in_sep cur (c # cs) =
     (if sep c then
        (if in_sep then split_runs sep True cur cs else cur # split_runs sep True [] cs)
      else split_runs sep False (cur @ [c]) cs)"

definition split_regex :: "(char \<Rightarrow> bool) \<Rightarrow> string \<Rightarrow> string list" where
  "split_regex sep s = split_runs sep False [] s"

text \<open>\<open>s.split('/')\<close>: a split at every occurrence of one character.\<close>

fun split_at :: "char \<Rightarrow> string \<Rightarrow> string \<Rightarrow> string list" where
  "split_at d cur [] = [cur]"
| "split_at d cur (c # cs) =
     (if c = d then cur # split_at d [] cs else split_at d (cur @ [c]) cs)"

definition split_char :: "char \<Rightarrow> string \<Rightarrow> string list" where
  "split_char d s = split_at d [] s"

text \<open>\<open>s.replace(pat, rep)\<close> with a string pattern: the first occurrence only.\<close>

fun replace_first :: "string \<Rightarrow> string \<Rightarrow> string \<Rightarrow> string" where
  "replace_first pat rep [] = (if pat = [] then rep else [])"
| "replace_first pat rep (c # cs) =
     (if take (length pat) (c # cs) = pat then rep @ drop (length pat) (c # cs)
      else c # replace_first pat rep cs)"

text \<open>\<open>xs.slice(i, j)\<close> for \<open>0 \<le> i \<le> j\<close>.\<close>

definition slice :: "nat \<Rightarrow> nat \<Rightarrow> 'a list \<Rightarrow> 'a list" where
  "slice i j xs = take (j - i) (drop i xs)"

section \<open>The parsed page\<close>

text \<open>
  \<open>cheerio.load\<close> is a library function; the model takes it as a parameter that maps the
  markup to a forest of nodes (tag names in lower case, attributes in source order).
  The SHA-256 digest of \<open>crypto\<close> is a parameter too. The third parameter is the order
  in which the engine's \<open>Array.prototype.sort\<close> leaves a list of pairs of a word and its
  tally when the comparison function is not a consistent one, a case that the language
  leaves to the engine. A tally is a number of occurrences or a value that is not a
  number.
\<close>

datatype node = Text string | Element string "(string \<times> string) list" "node list"

datatype tally = Times nat | NotANumber

record lib =
  cheerio_load :: "string \<Rightarrow> node list"
  sha256_hex :: "string \<Rightarrow> string"
  engine_sort :: "(string \<times> tally) list \<Rightarrow> (string \<times> tally) list"

fun text_of :: "node \<Rightarrow> string" where
  "text_of (Text s) = s"
| "text_of (Element t as kids) = concat (map text_of kids)"

definition attr :: "node \<Rightarrow> string \<Rightarrow> string option" where
  "attr n a = (case n of Text s \<Rightarrow> None | Element t as kids \<Rightarrow> map_of as a)"

definition tagName :: "node \<Rightarrow> string" where
  "tagName n = (case n of Text s \<Rightarrow> [] | Element t as kids \<Rightarrow> t)"

definition has_class :: "string \<Rightarrow> (string \<times> string) list \<Rightarrow> bool" where
  "has_class c as = (case map_of as ''class'' of
      None \<Rightarrow> False
    | Some v \<Rightarrow> c \<in> set (split_regex is_space v))"

text \<open>\<open>$('._content')\<close>: every element of class \<open>_content\<close>, in document order.\<close>

fun select_content :: "node \<Rightarrow> node list" where
  "select_content (Text s) = []"
| "select_content (Element t as kids) =
     (if has_class ''_content'' as then [Element t as kids] else [])
     @ concat (map select_content kids)"

text \<open>
  The elements with a tag among \<open>ts\<close> below an element of class \<open>_content\<close>
  (\<open>$('._content').find('h1, ...')\<close>); \<open>inC\<close> says that an ancestor has the class.
\<close>

fun find_tags :: "string list \<Rightarrow> bool \<Rightarrow> node \<Rightarrow> node list" where
  "find_tags ts inC (Text s) = []"
| "find_tags ts inC (Element t as kids) =
     (if t \<in> set ts \<and> inC then [Element t as kids] else [])
     @ concat (map (find_tags ts (inC \<or> has_class ''_content'' as)) kids)"

text \<open>
  \<open>$('._content pre code')\<close>: a \<open>code\<close> element below a \<open>pre\<close> element that is below an
  element of class \<open>_content\<close>; \<open>inP\<close> says that such a \<open>pre\<close> is an ancestor.
\<close>

fun select_code :: "bool \<Rightarrow> bool \<Rightarrow> node \<Rightarrow> node list" where
  "select_code inC inP (Text s) = []"
| "select_code inC inP (Element t as kids) =
     (if t = ''code'' \<and> inP then [Element t as kids] else [])
     @ concat (map (select_code (inC \<or> has_class ''_content'' as) (inP \<or> (t = ''pre'' \<and> inC))) kids)"

text \<open>
  \<open>$('._content').find('pre code')\<close>: the selector is matched from the selected elements
  on, and its first step may stay on the selected element itself. So this is a \<open>code\<close>
  element below a \<open>pre\<close> element that either is below an element of class \<open>_content\<close>
  or has that class itself.
\<close>

fun find_code :: "bool \<Rightarrow> bool \<Rightarrow> node \<Rightarrow> node list" where
  "find_code inC inP (Text s) = []"
| "find_code inC inP (Element t as kids) =
     (if t = ''code'' \<and> inP then [Element t as kids] else [])
     @ concat (map (find_code (inC \<or> has_class ''_content'' as)
                      (inP \<or> (t = ''pre'' \<and> (inC \<or> has_class ''_content'' as)))) kids)"

text \<open>\<open>.text()\<close> of a selection: the text of every selected element, concatenated.\<close>

definition selection_text :: "node list \<Rightarrow> string" where
  "selection_text sel = concat (map text_of sel)"

section \<open>The data of \<open>types.ts\<close>\<close>

record DevDocsEntry =
  entry_name :: string
  entry_path :: string
  entry_type :: string

record CodeSnippet =
  language :: string
  code :: string

record ScrapeResult =
  success :: bool
  url :: string
  title :: string
  content :: string
  markdown :: "string option"
  codeSnippets :: "CodeSnippet list"
  wordCount :: nat
  characterCount :: nat
  result_keywords :: "string list"
  topics :: "string list"
  error :: "string option"

record ScraperConfig =
  concurrency :: nat
  delayMs :: nat
  timeoutMs :: nat
  maxRetries :: nat
  rateLimitPerMinute :: nat
  rateLimitPerHour :: nat

text \<open>
  The constructor: \<open>config?.field || default\<close> takes the default for a missing field and
  for \<open>0\<close>. The configuration numbers are counts and milliseconds, modelled as
  \<^typ>\<open>nat\<close>.
\<close>

record PartialConfig =
  p_concurrency :: "nat option"
  p_delayMs :: "nat option"
  p_timeoutMs :: "nat option"
  p_maxRetries :: "nat option"
  p_rateLimitPerMinute :: "nat option"
  p_rateLimitPerHour :: "nat option"

definition or_default :: "nat option \<Rightarrow> nat \<Rightarrow> nat" where
  "or_default v d = (case v of None \<Rightarrow> d | Some n \<Rightarrow> if n = 0 then d else n)"

definition new_scraper :: "PartialConfig \<Rightarrow> ScraperConfig" where
  "new_scraper c =
     \<lparr> concurrency = or_default (p_concurrency c) 3,
       delayMs = or_default (p_delayMs c) 1000,
       timeoutMs = or_default (p_timeoutMs c) 30000,
       maxRetries = or_default (p_maxRetries c) 3,
       rateLimitPerMinute = or_default (p_rateLimitPerMinute c) 60,
       rateLimitPerHour = or_default (p_rateLimitPerHour c) 1000 \<rparr>"

section \<open>Extraction (\<open>scrapePage\<close>, \<open>extractKeywords\<close>, \<open>htmlToMarkdown\<close>)\<close>

text \<open>
  \<open>frequency\<close> is a JavaScript object used as a table from word to count. The model keeps
  it as an association list in insertion order. Two words name properties that every
  object inherits. For \<open>constructor\<close> the value of \<open>frequency[word] || 0\<close> is the inherited
  function, and adding \<open>1\<close> to it gives a string: what is stored under the word is not a
  number, and each further occurrence appends to the string. For \<open>__proto__\<close> the value
  is the prototype object, and the assignment of the resulting string to \<open>__proto__\<close>
  is ignored: the word never becomes a key. The other inherited names have a capital
  letter, and the words are in lower case.
\<close>

definition bump :: "(string \<times> tally) list \<Rightarrow> string \<Rightarrow> (string \<times> tally) list" where
  "bump freq w =
     (if w = ''__proto__'' then freq
      else case map_of freq w of
          None \<Rightarrow> freq @ [(w, if w = ''constructor'' then NotANumber else Times 1)]
        | Some c \<Rightarrow> map (\<lambda>(k, v). if k = w
                          then (k, case v of Times n \<Rightarrow> Times (n + 1) | NotANumber \<Rightarrow> NotANumber)
                          else (k, v)) freq)"

text \<open>
  \<open>Object.entries\<close> lists the keys that are array indices first, in ascending numeric
  order, and then the other keys in insertion order.
\<close>

definition nat_of_digits :: "string \<Rightarrow> nat" where
  "nat_of_digits s = foldl (\<lambda>a c. 10 * a + (of_char c - 48)) 0 s"

definition is_array_index :: "string \<Rightarrow> bool" where
  "is_array_index s =
     (s \<noteq> [] \<and> list_all is_digit s \<and> (s = ''0'' \<or> hd s \<noteq> CHR ''0'')
      \<and> nat_of_digits s < 2 ^ 32 - 1)"

definition object_entries :: "(string \<times> 'a) list \<Rightarrow> (string \<times> 'a) list" where
  "object_entries freq =
     sort_key (\<lambda>(k, v). nat_of_digits k) (filter (\<lambda>(k, v). is_array_index k) freq)
     @ filter (\<lambda>(k, v). \<not> is_array_index k) freq"

text \<open>
  \<open>sort((a, b) => b[1] - a[1])\<close>. When every tally is a number this is a stable sort,
  the larger count first. With a tally that is not a number the difference is \<open>NaN\<close>,
  which \<open>sort\<close> takes for \<open>0\<close>: that entry compares equal to every other. If the counts
  of the other entries are all the same, every two entries compare equal and the stable
  sort moves nothing; if not, the comparison function is not consistent and the order is
  the engine's.
\<close>

definition numbers :: "(string \<times> tally) list \<Rightarrow> nat list" where
  "numbers es = concat (map (\<lambda>(k, v). case v of Times n \<Rightarrow> [n] | NotANumber \<Rightarrow> []) es)"

definition sort_entries :: "lib \<Rightarrow> (string \<times> tally) list \<Rightarrow> (string \<times> tally) list" where
  "sort_entries l es =
     (if length (numbers es) = length es
      then sort_key (\<lambda>(k, v). case v of Times n \<Rightarrow> - int n | NotANumber \<Rightarrow> 0) es
      else if length (remdups (numbers es)) \<le> 1 then es
      else engine_sort l es)"

definition extractKeywords :: "lib \<Rightarrow> string \<Rightarrow> string list" where
  "extractKeywords l c =
     (let words = filter (\<lambda>w. length w > 3) (split_regex (\<lambda>x. \<not> is_word x) (toLowerCase c));
          frequency = foldl bump [] words
      in map fst (take 10 (sort_entries l (object_entries frequency))))"

definition code_language :: "node \<Rightarrow> string \<Rightarrow> string" where
  "code_language el dflt = (case attr el ''class'' of
      None \<Rightarrow> dflt
    | Some cls \<Rightarrow> (let l = replace_first ''language-'' [] cls in if l = [] then dflt else l))"

text \<open>The code fence of Markdown: three grave accents.\<close>

definition fence :: string where
  "fence = replicate 3 (CHR 0x60)"

definition htmlToMarkdown :: "node list \<Rightarrow> string" where
  "htmlToMarkdown doc =
     (let headings = concat (map (\<lambda>el.
            replicate (of_char (tagName el ! 1) - 48) (CHR ''#'') @ '' '' @ trim (text_of el)
            @ [CHR 0x0A, CHR 0x0A])
          (concat (map (find_tags [''h1'', ''h2'', ''h3'', ''h4'', ''h5'', ''h6''] False) doc)));
          paragraphs = concat (map (\<lambda>el. trim (text_of el) @ [CHR 0x0A, CHR 0x0A])
          (concat (map (find_tags [''p''] False) doc)));
          blocks = concat (map (\<lambda>el.
            fence @ code_language el [] @ [CHR 0x0A] @ trim (text_of el) @ [CHR 0x0A]
            @ fence @ [CHR 0x0A, CHR 0x0A])
          (concat (map (find_code False False) doc)))
      in trim (headings @ paragraphs @ blocks))"

definition DEVDOCS_BASE :: string where
  "DEVDOCS_BASE = ''https://devdocs.io''"

definition index_url :: "string \<Rightarrow> string" where
  "index_url docSlug = DEVDOCS_BASE @ ''/docs/'' @ docSlug @ ''/index.json''"

definition page_url :: "string \<Rightarrow> DevDocsEntry \<Rightarrow> string" where
  "page_url docSlug entry = DEVDOCS_BASE @ ''/'' @ docSlug @ ''/'' @ entry_path entry"

text \<open>The body text of a page: \<open>$('._content').text().trim()\<close>.\<close>

definition page_content :: "lib \<Rightarrow> string \<Rightarrow> string" where
  "page_content l html = trim (selection_text (concat (map select_content (cheerio_load l html))))"

text \<open>
  Lines 92 to 130 of \<open>scrapePage\<close>: what is built from the markup once it is fetched.
  \<open>cheerio\<close> and the string functions are taken to return for every input, so in the
  model the fetch is the only step inside the \<open>try\<close> that can throw.
\<close>

definition extract_page :: "lib \<Rightarrow> string \<Rightarrow> DevDocsEntry \<Rightarrow> string \<Rightarrow> ScrapeResult" where
  "extract_page l docSlug entry html =
     (let doc = cheerio_load l html;
          c = page_content l html;
          snippets = concat (map (\<lambda>el.
              let cd = trim (text_of el); lang = code_language el ''plaintext''
              in if cd \<noteq> [] then [\<lparr> language = lang, code = cd \<rparr>] else [])
            (concat (map (select_code False False) doc)));
          md = htmlToMarkdown doc;
          kw = extractKeywords l c;
          tp = [docSlug, entry_type entry] @ take 2 (split_char (CHR ''/'') (entry_name entry));
          wc = length (filter (\<lambda>w. w \<noteq> []) (split_regex is_space c))
      in \<lparr> success = True, url = page_url docSlug entry, title = entry_name entry,
           content = c, markdown = Some md, codeSnippets = snippets,
           wordCount = wc, characterCount = length c, result_keywords = kw, topics = tp,
           error = None \<rparr>)"

section \<open>Numbers\<close>

text \<open>
  A JavaScript number is an IEEE 754 double. The counts of a run are whole numbers
  below \<open>2 ^ 53\<close> (an array has fewer than \<open>2 ^ 32\<close> elements), which doubles hold
  exactly: they are modelled as \<^typ>\<open>nat\<close>. The progress is computed by a division and a
  multiplication of doubles, and each of the two rounds its exact result to the nearest
  double, a tie going to the even significand. A double is modelled as the rational
  number it stands for.

  \<open>binade x\<close> is the exponent \<open>e\<close> with \<open>2 ^ e \<le> x < 2 ^ (e + 1)\<close> for a positive
  \<open>x\<close>, and \<open>round_double x\<close> is the nearest multiple of \<open>2 ^ (e - 52)\<close>: the model has
  the significand of 53 bits and leaves the exponent unbounded. The quotients and
  products of a run lie between \<open>2 ^ - 32\<close> and \<open>100\<close>, where a double has its full
  precision. No division by zero occurs in a run: the body of the loop runs for an index
  that has an entry. In the model, as in HOL, a quotient by \<open>0\<close> is \<open>0\<close>.
\<close>

definition binade :: "rat \<Rightarrow> int" where
  "binade x = (let (a, b) = quotient_of x; d = bitlen a - bitlen b
               in if 2 powi d \<le> x then d else d - 1)"

definition round_half_even :: "rat \<Rightarrow> int" where
  "round_half_even y =
     (let f = \<lfloor>y\<rfloor>; r = y - of_int f
      in if r < 1 / 2 then f else if 1 / 2 < r then f + 1 else if even f then f else f + 1)"

definition round_double :: "rat \<Rightarrow> rat" where
  "round_double x =
     (if x = 0 then 0
      else let u = 2 powi (binade \<bar>x\<bar> - 52)
           in sgn x * (u * of_int (round_half_even (\<bar>x\<bar> / u))))"

text \<open>The operators \<open>/\<close> and \<open>*\<close> on doubles.\<close>

definition double_div :: "rat \<Rightarrow> rat \<Rightarrow> rat" where
  "double_div a b = round_double (a / b)"

definition double_mul :: "rat \<Rightarrow> rat \<Rightarrow> rat" where
  "double_mul a b = round_double (a * b)"

section \<open>The network, the stores and the state of a run\<close>

text \<open>
  A thrown value is an \<open>Error\<close> with its message, or some other value
  (\<open>error instanceof Error\<close> is false for it).
\<close>

datatype js_error = JsError string | JsThrown

definition error_text :: "js_error \<Rightarrow> string" where
  "error_text err = (case err of JsError m \<Rightarrow> m | JsThrown \<Rightarrow> ''Unknown error'')"

datatype job_status = Pending | Running | Completed | Failed | Cancelled | Paused

text \<open>The columns of \<open>scraping_jobs\<close> that a run reads or writes, and the dedup counters.\<close>

record ScrapingJob =
  status :: job_status
  started_at :: "nat option"
  completed_at :: "nat option"
  total_urls :: nat
  urls_processed :: nat
  urls_failed :: nat
  progress_percentage :: rat
  items_scraped :: nat
  items_new :: nat
  items_updated :: nat
  items_unchanged :: nat
  error_message :: "string option"

text \<open>
  Modelled from the spec: the creation of a Job is done by the caller of \<open>scrapeDoc\<close>,
  which is not among the sources. The spec's \<open>createJob\<close> gives status \<open>pending\<close>, all
  counters zero and \<open>total = 0\<close>.
\<close>

definition new_job :: ScrapingJob where
  "new_job =
     \<lparr> status = Pending, started_at = None, completed_at = None, total_urls = 0,
       urls_processed = 0, urls_failed = 0, progress_percentage = 0, items_scraped = 0,
       items_new = 0, items_updated = 0, items_unchanged = 0, error_message = None \<rparr>"

text \<open>
  The three objects that \<open>scrapeDoc\<close> passes to \<open>updateJob\<close>:
  \<open>{total_urls, status: 'running', started_at}\<close>,
  \<open>{urls_processed, urls_failed, progress_percentage, items_scraped}\<close> and
  \<open>{status: 'completed', completed_at}\<close>. The store merges the fields into the row.
  \<open>progress_percentage\<close> is the double that the run has computed.
\<close>

datatype job_update =
    Started nat nat
  | Progressed nat nat rat nat
  | Finished nat

fun merge_update :: "job_update \<Rightarrow> ScrapingJob \<Rightarrow> ScrapingJob" where
  "merge_update (Started tot t) j =
     j\<lparr> total_urls := tot, status := Running, started_at := Some t \<rparr>"
| "merge_update (Progressed p f pr s) j =
     j\<lparr> urls_processed := p, urls_failed := f, progress_percentage := pr, items_scraped := s \<rparr>"
| "merge_update (Finished t) j =
     j\<lparr> status := Completed, completed_at := Some t \<rparr>"

text \<open>A row of \<open>knowledge_content\<close>: the fields of \<open>contentData\<close> and the row's id.\<close>

record content_row =
  row_id :: nat
  source_id :: string
  row_url :: string
  row_title :: string
  content_type :: string
  row_content :: string
  row_markdown :: "string option"
  code_snippets :: "CodeSnippet list"
  word_count :: nat
  character_count :: nat
  row_keywords :: "string list"
  row_topics :: "string list"
  content_hash :: string
  processed :: bool

text \<open>
  What a run meets outside the process. \<open>get_index\<close> and \<open>get_page\<close> are the answers of
  \<open>axios.get\<close> by URL: \<open>Inl\<close> is the thrown error; the index answers with
  \<open>response.data.entries\<close>, which is \<open>None\<close> when the document has no such field.
  \<open>source_row\<close> is the id of the one row of \<open>knowledge_sources\<close> whose url is
  \<open>DEVDOCS_BASE\<close>, if there is one. \<open>job_store_up n\<close> and \<open>content_store_up n\<close> say
  whether the \<open>n\<close>-th call to the job store, or to the content store, goes through;
  otherwise that call throws.
\<close>

record env =
  get_index :: "string \<Rightarrow> js_error + DevDocsEntry list option"
  get_page :: "string \<Rightarrow> js_error + string"
  source_row :: "string option"
  job_store_up :: "nat \<Rightarrow> bool"
  content_store_up :: "nat \<Rightarrow> bool"

text \<open>
  The state: the row of \<open>scraping_jobs\<close> with id \<open>jobId\<close>, which the caller has
  created; the table \<open>knowledge_content\<close> by url, with at most one row for a url, as the
  lookup with \<open>.single()\<close> expects, and \<open>next_id\<close> the id of the next inserted row; the
  scraper's cached \<open>sourceId\<close>, which is never the empty string; a clock that only
  \<open>delay\<close> advances. Four fields record what happened, for the theorems:
  \<open>job_log\<close> has every object passed to \<open>updateJob\<close> with the row as it stands after
  the call, \<open>fetch_log\<close> every group given to \<open>Promise.all\<close> with the number of results
  already recorded at that moment, \<open>reported\<close> the calls of \<open>onProgress\<close>, and
  \<open>job_calls\<close> and \<open>db_calls\<close> count the calls to the two stores.
\<close>

record world =
  job :: ScrapingJob
  job_calls :: nat
  job_log :: "(job_update \<times> ScrapingJob) list"
  rows :: "string \<Rightarrow> content_row option"
  next_id :: nat
  db_calls :: nat
  sourceId :: "string option"
  now :: nat
  fetch_log :: "(nat \<times> DevDocsEntry list) list"
  reported :: "(nat \<times> nat) list"

section \<open>\<open>getDocEntries\<close>, \<open>scrapePage\<close>, \<open>updateJob\<close>, \<open>saveContent\<close>\<close>

definition getDocEntries :: "env \<Rightarrow> string \<Rightarrow> js_error + DevDocsEntry list option" where
  "getDocEntries e docSlug =
     (case get_index e (index_url docSlug) of
        Inr entries \<Rightarrow> Inr entries
      | Inl err \<Rightarrow> Inl err)"

definition scrapePage :: "lib \<Rightarrow> env \<Rightarrow> string \<Rightarrow> DevDocsEntry \<Rightarrow> ScrapeResult" where
  "scrapePage l e docSlug entry =
     (case get_page e (page_url docSlug entry) of
        Inr html \<Rightarrow> extract_page l docSlug entry html
      | Inl err \<Rightarrow>
          \<lparr> success = False, url = page_url docSlug entry, title = entry_name entry,
            content = [], markdown = None, codeSnippets = [], wordCount = 0,
            characterCount = 0, result_keywords = [], topics = [],
            error = Some (error_text err) \<rparr>)"

definition updateJob :: "env \<Rightarrow> job_update \<Rightarrow> world \<Rightarrow> world" where
  "updateJob e upd w =
     (let j = (if job_store_up e (job_calls w) then merge_update upd (job w) else job w)
      in w\<lparr> job := j, job_calls := job_calls w + 1, job_log := job_log w @ [(upd, j)] \<rparr>)"

definition contentData :: "ScrapeResult \<Rightarrow> string \<Rightarrow> string \<Rightarrow> nat \<Rightarrow> content_row" where
  "contentData result sid h rid =
     \<lparr> row_id = rid, source_id = sid, row_url = url result, row_title = title result,
       content_type = ''documentation_page'', row_content = content result,
       row_markdown = markdown result, code_snippets = codeSnippets result,
       word_count = wordCount result, character_count = characterCount result,
       row_keywords = result_keywords result, row_topics = topics result,
       content_hash = h, processed = False \<rparr>"

text \<open>The fingerprint: \<open>crypto.createHash('sha256').update(result.content).digest('hex')\<close>.\<close>

definition contentHash :: "lib \<Rightarrow> ScrapeResult \<Rightarrow> string" where
  "contentHash l result = sha256_hex l (content result)"

text \<open>
  \<open>saveContent\<close>, call by call. A call that throws is caught at the end of the function,
  which then returns; the state keeps what was done before.
\<close>

definition saveContent :: "lib \<Rightarrow> env \<Rightarrow> ScrapeResult \<Rightarrow> string \<Rightarrow> world \<Rightarrow> world" where
  "saveContent l e result docSlug w =
     (if sourceId w = None \<and> \<not> content_store_up e (db_calls w) then w\<lparr> db_calls := db_calls w + 1 \<rparr>
      else
        let w1 = (if sourceId w = None
                  then w\<lparr> db_calls := db_calls w + 1,
                         sourceId := (case source_row e of
                                        None \<Rightarrow> None
                                      | Some sid \<Rightarrow> if sid = [] then None else Some sid) \<rparr>
                  else w)
        in case sourceId w1 of
             None \<Rightarrow> w1
           | Some sid \<Rightarrow>
               let h = contentHash l result in
               if \<not> content_store_up e (db_calls w1) then w1\<lparr> db_calls := db_calls w1 + 1 \<rparr>
               else
                 let w2 = w1\<lparr> db_calls := db_calls w1 + 1 \<rparr>;
                     existing = rows w2 (url result)
                 in case existing of
                      Some row \<Rightarrow>
                        if content_hash row = h then w2
                        else if \<not> content_store_up e (db_calls w2)
                          then w2\<lparr> db_calls := db_calls w2 + 1 \<rparr>
                          else w2\<lparr> db_calls := db_calls w2 + 1,
                                  rows := (rows w2)(url result \<mapsto>
                                    contentData result sid h (row_id row)) \<rparr>
                    | None \<Rightarrow>
                        if \<not> content_store_up e (db_calls w2)
                          then w2\<lparr> db_calls := db_calls w2 + 1 \<rparr>
                          else w2\<lparr> db_calls := db_calls w2 + 1,
                                  next_id := next_id w2 + 1,
                                  rows := (rows w2)(url result \<mapsto>
                                    contentData result sid h (next_id w2)) \<rparr>)"

definition delay :: "nat \<Rightarrow> world \<Rightarrow> world" where
  "delay ms w = w\<lparr> now := now w + ms \<rparr>"

section \<open>\<open>scrapeDoc\<close>\<close>

text \<open>The local variables of \<open>scrapeDoc\<close> that the loop changes, with the state.\<close>

record loop_state =
  world_of :: world
  successCount :: nat
  failedCount :: nat

text \<open>
  The body of \<open>for (const result of results)\<close>. \<open>onProgress\<close> says whether a callback
  was passed; the callback is the caller's code and is taken to return.
\<close>

definition record_result ::
  "lib \<Rightarrow> env \<Rightarrow> string \<Rightarrow> bool \<Rightarrow> nat \<Rightarrow> ScrapeResult \<Rightarrow> loop_state \<Rightarrow> loop_state" where
  "record_result l e docSlug onProgress tot result st =
     (let st1 = (if success result
                 then st\<lparr> world_of := saveContent l e result docSlug (world_of st),
                         successCount := successCount st + 1 \<rparr>
                 else st\<lparr> failedCount := failedCount st + 1 \<rparr>);
          processed = successCount st1 + failedCount st1;
          progress = double_mul (double_div (of_nat processed) (of_nat tot)) 100;
          w1 = updateJob e
                 (Progressed processed (failedCount st1) progress (successCount st1))
                 (world_of st1);
          w2 = (if onProgress then w1\<lparr> reported := reported w1 @ [(processed, tot)] \<rparr> else w1)
      in st1\<lparr> world_of := w2 \<rparr>)"

text \<open>One round of the batch loop, for the index \<open>i\<close>.\<close>

definition run_batch ::
  "lib \<Rightarrow> ScraperConfig \<Rightarrow> env \<Rightarrow> string \<Rightarrow> bool \<Rightarrow> DevDocsEntry list \<Rightarrow> nat
     \<Rightarrow> loop_state \<Rightarrow> loop_state" where
  "run_batch l c e docSlug onProgress entries i st =
     (let batch = slice i (i + concurrency c) entries;
          w0 = (world_of st)\<lparr> fetch_log := fetch_log (world_of st)
                  @ [(successCount st + failedCount st, batch)] \<rparr>;
          results = map (scrapePage l e docSlug) batch;
          st1 = fold (record_result l e docSlug onProgress (length entries)) results
                  (st\<lparr> world_of := w0 \<rparr>)
      in if i + concurrency c < length entries
         then st1\<lparr> world_of := delay (delayMs c) (world_of st1) \<rparr>
         else st1)"

text \<open>
  \<open>for (let i = 0; i < entries.length; i += this.config.concurrency)\<close>. With a
  concurrency of \<open>0\<close> the loop would not end; the result \<open>None\<close> stands for that.
\<close>

partial_function (option) batch_loop ::
  "lib \<Rightarrow> ScraperConfig \<Rightarrow> env \<Rightarrow> string \<Rightarrow> bool \<Rightarrow> DevDocsEntry list \<Rightarrow> nat
     \<Rightarrow> loop_state \<Rightarrow> loop_state option" where
  "batch_loop l c e docSlug onProgress entries i st =
     (if i < length entries
      then batch_loop l c e docSlug onProgress entries (i + concurrency c)
             (run_batch l c e docSlug onProgress entries i st)
      else Some st)"

record Counts =
  c_success :: nat
  c_failed :: nat
  c_total :: nat

text \<open>
  \<open>scrapeDoc\<close> returns the thrown error or the three counts, and the state it leaves.
  An index without \<open>entries\<close> makes \<open>entries.length\<close> throw a \<open>TypeError\<close>.
\<close>

definition scrapeDoc ::
  "lib \<Rightarrow> ScraperConfig \<Rightarrow> env \<Rightarrow> string \<Rightarrow> bool \<Rightarrow> world
     \<Rightarrow> ((js_error + Counts) \<times> world) option" where
  "scrapeDoc l c e docSlug onProgress w =
     (case getDocEntries e docSlug of
        Inl err \<Rightarrow> Some (Inl err, w)
      | Inr None \<Rightarrow> Some (Inl (JsError ''TypeError''), w)
      | Inr (Some entries) \<Rightarrow>
          let tot = length entries;
              w1 = updateJob e (Started tot (now w)) w
          in case batch_loop l c e docSlug onProgress entries 0
                    \<lparr> world_of = w1, successCount = 0, failedCount = 0 \<rparr> of
               None \<Rightarrow> None
             | Some st \<Rightarrow>
                 let w2 = updateJob e (Finished (now (world_of st))) (world_of st)
                 in Some (Inr \<lparr> c_success = successCount st, c_failed = failedCount st,
                                c_total = tot \<rparr>, w2))"

section \<open>A small site, for the concrete runs\<close>

text \<open>
  A parser that knows four markups and gives the empty document for any other, a
  digest that prefixes its input, an injective function in the place of SHA-256, and
  an engine whose sort moves nothing when the comparison function is not consistent.
\<close>

definition demo_lib :: lib where
  "demo_lib =
     \<lparr> cheerio_load = (\<lambda>html.
         if html = ''<div class=_content>Intro text</div>''
         then [Element ''div'' [(''class'', ''_content'')] [Text ''Intro text'']]
         else if html = ''<p>no region here''
         then [Element ''p'' [] [Text ''no region here'']]
         else if html = ''<div class=_content>Intro<pre><code>x = 1</code></pre></div>''
         then [Element ''div'' [(''class'', ''_content'')]
                 [Text ''Intro'', Element ''pre'' [] [Element ''code'' [] [Text ''x = 1'']]]]
         else if html = ''<div class=_content>Intro<pre><code>x = 2</code></pre></div>''
         then [Element ''div'' [(''class'', ''_content'')]
                 [Text ''Intro'', Element ''pre'' [] [Element ''code'' [] [Text ''x = 2'']]]]
         else []),
       sha256_hex = (\<lambda>s. ''sha256:'' @ s),
       engine_sort = (\<lambda>es. es) \<rparr>"

definition intro_entry :: DevDocsEntry where
  "intro_entry = \<lparr> entry_name = ''Guide/Intro'', entry_path = ''intro'', entry_type = ''Guide'' \<rparr>"

definition hooks_entry :: DevDocsEntry where
  "hooks_entry = \<lparr> entry_name = ''Hooks'', entry_path = ''hooks'', entry_type = ''API'' \<rparr>"

definition api_entry :: DevDocsEntry where
  "api_entry = \<lparr> entry_name = ''API'', entry_path = ''api'', entry_type = ''API'' \<rparr>"

definition demo_entries :: "DevDocsEntry list" where
  "demo_entries = [intro_entry, hooks_entry, api_entry]"

text \<open>The site: an index of three pages, of which the page \<open>hooks\<close> cannot be fetched.\<close>

definition demo_env :: env where
  "demo_env =
     \<lparr> get_index = (\<lambda>u. if u = ''https://devdocs.io/docs/react/index.json''
                          then Inr (Some demo_entries)
                          else Inl (JsError ''Request failed with status code 404'')),
       get_page = (\<lambda>u. if u = ''https://devdocs.io/react/hooks''
                         then Inl (JsError ''timeout of 30000ms exceeded'')
                         else Inr ''<div class=_content>Intro text</div>''),
       source_row = Some ''source-1'',
       job_store_up = (\<lambda>n. True),
       content_store_up = (\<lambda>n. True) \<rparr>"

text \<open>The same site with an index that answers HTTP 500.\<close>

definition broken_index_env :: env where
  "broken_index_env =
     demo_env\<lparr> get_index := (\<lambda>u. Inl (JsError ''Request failed with status code 500'')) \<rparr>"

text \<open>A site of one page whose markup has no content region.\<close>

definition bare_env :: env where
  "bare_env =
     demo_env\<lparr> get_index := (\<lambda>u. Inr (Some [intro_entry])),
               get_page := (\<lambda>u. Inr ''<p>no region here'') \<rparr>"

definition demo_config :: ScraperConfig where
  "demo_config = new_scraper \<lparr> p_concurrency = Some 2, p_delayMs = None, p_timeoutMs = None,
      p_maxRetries = None, p_rateLimitPerMinute = None, p_rateLimitPerHour = None \<rparr>"

definition fresh_world :: world where
  "fresh_world =
     \<lparr> job = new_job, job_calls = 0, job_log = [], rows = Map.empty, next_id = 0,
       db_calls = 0, sourceId = None, now = 0, fetch_log = [], reported = [] \<rparr>"

text \<open>A site of one page where the third call to the content store, the insert, throws.\<close>

definition write_outage_env :: env where
  "write_outage_env =
     demo_env\<lparr> get_index := (\<lambda>u. Inr (Some [intro_entry])),
               content_store_up := (\<lambda>n. n < 2) \<rparr>"

text \<open>The same site with a content store that throws at every call.\<close>

definition content_outage_env :: env where
  "content_outage_env = demo_env\<lparr> content_store_up := (\<lambda>n. False) \<rparr>"

text \<open>
  Two versions of a site whose pages differ in the text of one code block and in
  nothing else.
\<close>

definition code_v1_env :: env where
  "code_v1_env = demo_env\<lparr> get_page :=
      (\<lambda>u. Inr ''<div class=_content>Intro<pre><code>x = 1</code></pre></div>'') \<rparr>"

definition code_v2_env :: env where
  "code_v2_env = demo_env\<lparr> get_page :=
      (\<lambda>u. Inr ''<div class=_content>Intro<pre><code>x = 2</code></pre></div>'') \<rparr>"

text \<open>The state after the page \<open>api\<close> of the first version was saved into an empty table.\<close>

definition code_v1_world :: world where
  "code_v1_world =
     saveContent demo_lib code_v1_env (scrapePage demo_lib code_v1_env ''react'' api_entry)
       ''react'' fresh_world"

text \<open>A site of one page, which can be fetched, with both stores up.\<close>

definition single_env :: env where
  "single_env = demo_env\<lparr> get_index := (\<lambda>u. Inr (Some [intro_entry])) \<rparr>"

text \<open>
  The state that a first run over this site leaves, and a second run over the same site
  with a new Job.
\<close>

definition first_run_world :: world where
  "first_run_world = snd (the (scrapeDoc demo_lib demo_config single_env ''react'' False fresh_world))"

definition second_run :: "((js_error + Counts) \<times> world) option" where
  "second_run = scrapeDoc demo_lib demo_config single_env ''react'' False
                  (first_run_world\<lparr> job := new_job, job_log := [] \<rparr>)"

text \<open>
  The same site with both stores failing: the first call to the job store and every
  call to the content store throw.
\<close>

definition flaky_env :: env where
  "flaky_env = demo_env\<lparr> job_store_up := (\<lambda>n. 0 < n), content_store_up := (\<lambda>n. False) \<rparr>"

text \<open>The scraper that the constructor builds without a configuration: groups of three.\<close>

definition default_config :: ScraperConfig where
  "default_config = new_scraper \<lparr> p_concurrency = None, p_delayMs = None, p_timeoutMs = None,
      p_maxRetries = None, p_rateLimitPerMinute = None, p_rateLimitPerHour = None \<rparr>"

text \<open>
  The site of one page with a job store whose first call, the write of the total,
  throws.
\<close>

definition lost_total_env :: env where
  "lost_total_env = single_env\<lparr> job_store_up := (\<lambda>n. 0 < n) \<rparr>"

text \<open>The site of three pages when \<open>knowledge_sources\<close> has no row for DevDocs.\<close>

definition no_source_env :: env where
  "no_source_env = demo_env\<lparr> source_row := None \<rparr>"

section \<open>Notions for the statements\<close>

text \<open>The fetch of an entry's page fails: \<open>axios.get\<close> throws for its URL.\<close>

definition fetch_fails :: "env \<Rightarrow> string \<Rightarrow> DevDocsEntry \<Rightarrow> bool" where
  "fetch_fails e docSlug entry = isl (get_page e (page_url docSlug entry))"

text \<open>
  The decision of the spec's Deduplicator, in the spec's words: \<open>New\<close> if no prior entry
  exists, \<open>Unchanged\<close> if the fingerprint matches exactly, \<open>Changed\<close> otherwise.
\<close>

datatype decision = New | Changed | Unchanged

definition spec_decide :: "(string \<Rightarrow> content_row option) \<Rightarrow> string \<Rightarrow> string \<Rightarrow> decision" where
  "spec_decide table u fingerprint =
     (case table u of
        None \<Rightarrow> New
      | Some row \<Rightarrow> if content_hash row = fingerprint then Unchanged else Changed)"

text \<open>
  The source id that \<open>saveContent\<close> works with: the cached one, or else the one it
  looks up.
\<close>

definition resolved_source :: "env \<Rightarrow> world \<Rightarrow> string option" where
  "resolved_source e w =
     (case sourceId w of
        Some sid \<Rightarrow> Some sid
      | None \<Rightarrow> (case source_row e of None \<Rightarrow> None | Some sid \<Rightarrow> if sid = [] then None else Some sid))"

text \<open>
  The first \<open>m\<close> consecutive groups of size \<open>k\<close> of a list, each with the number of
  items in the groups before it.
\<close>

definition groups :: "nat \<Rightarrow> 'a list \<Rightarrow> nat \<Rightarrow> (nat \<times> 'a list) list" where
  "groups k xs m = map (\<lambda>j. (j * k, slice (j * k) (j * k + k) xs)) [0..<m]"

text \<open>
  What a run over \<open>n\<close> items keeps true of the row of its Job: processed is succeeded
  plus failed and at most \<open>n\<close>, and the progress is \<open>0\<close> while nothing is processed and
  then the double that \<open>(processed / n) * 100\<close> gives.
\<close>

definition tracked :: "nat \<Rightarrow> ScrapingJob \<Rightarrow> bool" where
  "tracked n j =
     (urls_processed j = items_scraped j + urls_failed j
      \<and> urls_processed j \<le> n
      \<and> progress_percentage j =
          (if urls_processed j = 0 then 0
           else double_mul (double_div (of_nat (urls_processed j)) (of_nat n)) 100))"

text \<open>
  Every page of the entries that can be fetched is stored under the fingerprint of its
  present content: the decision for it is \<open>Unchanged\<close>.
\<close>

definition stored_pages :: "lib \<Rightarrow> env \<Rightarrow> string \<Rightarrow> DevDocsEntry list \<Rightarrow> world \<Rightarrow> bool" where
  "stored_pages l e docSlug es w =
     (\<forall>x \<in> set es. \<forall>html. get_page e (page_url docSlug x) = Inr html \<longrightarrow>
        spec_decide (rows w) (page_url docSlug x) (sha256_hex l (page_content l html)) = Unchanged)"

section \<open>The batch loop: rules of proof\<close>

text \<open>
  With a positive concurrency the loop ends, and what holds of index and state before
  the loop and after every round holds at the end, for an index past the last entry.
\<close>

lemma batch_loop_rule:
  assumes k: "0 < concurrency c"
    and init: "I i st"
    and step: "\<And>i st. i < length entries \<Longrightarrow> I i st
                 \<Longrightarrow> I (i + concurrency c) (run_batch l c e docSlug onProgress entries i st)"
  shows "\<exists>st' j. batch_loop l c e docSlug onProgress entries i st = Some st'
            \<and> length entries \<le> j \<and> I j st'"
  using init
proof (induction "length entries - i" arbitrary: i st rule: less_induct)
  case less
  show ?case
  proof (cases "i < length entries")
    case False
    then have "batch_loop l c e docSlug onProgress entries i st = Some st"
      by (subst batch_loop.simps) simp
    with False less.prems show ?thesis by (intro exI[of _ st] exI[of _ i]) simp
  next
    case True
    let ?st = "run_batch l c e docSlug onProgress entries i st"
    have "length entries - (i + concurrency c) < length entries - i"
      using True k by arith
    moreover have "I (i + concurrency c) ?st" using step[OF True less.prems] .
    ultimately obtain st' j where
      "batch_loop l c e docSlug onProgress entries (i + concurrency c) ?st = Some st'"
      "length entries \<le> j" "I j st'"
      using less.hyps by blast
    moreover have "batch_loop l c e docSlug onProgress entries i st
        = batch_loop l c e docSlug onProgress entries (i + concurrency c) ?st"
      using True by (subst batch_loop.simps) simp
    ultimately show ?thesis by auto
  qed
qed

lemma fold_record_result:
  assumes item: "\<And>es x rest st. entries = es @ x # rest \<Longrightarrow> J es st
                 \<Longrightarrow> J (es @ [x]) (record_result l e docSlug onProgress n (scrapePage l e docSlug x) st)"
  shows "entries = es @ xs @ rest \<Longrightarrow> J es st
     \<Longrightarrow> J (es @ xs) (fold (record_result l e docSlug onProgress n) (map (scrapePage l e docSlug) xs) st)"
proof (induction xs arbitrary: es st)
  case Nil
  then show ?case by simp
next
  case (Cons x xs)
  have "J (es @ [x]) (record_result l e docSlug onProgress n (scrapePage l e docSlug x) st)"
    using Cons.prems by (intro item[where rest = "xs @ rest"]) auto
  moreover have "entries = (es @ [x]) @ xs @ rest" using Cons.prems(1) by simp
  ultimately show ?case using Cons.IH[of "es @ [x]"] by simp
qed

lemma take_add_slice: "take (i + k) xs = take i xs @ slice i (i + k) xs"
  by (simp add: slice_def take_add)

lemma set_slice: "set (slice i j xs) \<subseteq> set xs"
  unfolding slice_def by (meson set_drop_subset set_take_subset subset_trans)

text \<open>
  The same for a property \<open>J\<close> of the entries recorded so far and the state: it is enough
  that recording one more result keeps it, and that the two steps between the results
  (noting a group in \<open>fetch_log\<close>, the pause) do not touch it.
\<close>

lemma run_invariant:
  assumes k: "0 < concurrency c"
    and init: "J [] st0"
    and item: "\<And>es x rest st. entries = es @ x # rest \<Longrightarrow> J es st
                 \<Longrightarrow> J (es @ [x]) (record_result l e docSlug onProgress (length entries)
                                      (scrapePage l e docSlug x) st)"
    and logged: "\<And>es st b. J es st
                 \<Longrightarrow> J es (st\<lparr> world_of := (world_of st)\<lparr> fetch_log := fetch_log (world_of st) @ [b] \<rparr> \<rparr>)"
    and delayed: "\<And>es st ms. J es st \<Longrightarrow> J es (st\<lparr> world_of := delay ms (world_of st) \<rparr>)"
  shows "\<exists>st'. batch_loop l c e docSlug onProgress entries 0 st0 = Some st' \<and> J entries st'"
proof -
  let ?I = "\<lambda>i st. J (take i entries) st"
  have step: "?I (i + concurrency c) (run_batch l c e docSlug onProgress entries i st)"
    if "i < length entries" "?I i st" for i st
  proof -
    let ?b = "slice i (i + concurrency c) entries"
    let ?st0 = "st\<lparr> world_of := (world_of st)\<lparr> fetch_log := fetch_log (world_of st)
                  @ [(successCount st + failedCount st, ?b)] \<rparr> \<rparr>"
    have "J (take i entries) ?st0" using that(2) by (rule logged)
    moreover have "entries = take i entries @ ?b @ drop (i + concurrency c) entries"
      by (metis append_assoc append_take_drop_id take_add_slice)
    ultimately have "J (take i entries @ ?b)
       (fold (record_result l e docSlug onProgress (length entries)) (map (scrapePage l e docSlug) ?b) ?st0)"
      by (intro fold_record_result[where entries = entries and J = J
            and rest = "drop (i + concurrency c) entries"] item)
    then show ?thesis
      by (simp add: run_batch_def Let_def take_add_slice delayed)
  qed
  have "?I 0 st0" using init by simp
  from batch_loop_rule[where I = ?I, OF k this step]
  obtain st' j where "batch_loop l c e docSlug onProgress entries 0 st0 = Some st'"
    "length entries \<le> j" "J (take j entries) st'" by blast
  then show ?thesis by simp
qed

section \<open>Extraction\<close>

lemma no_region_no_code:
  "select_content n = [] \<Longrightarrow> select_code False False n = []"
proof (induction n)
  case (Text s)
  show ?case by simp
next
  case (Element t as kids)
  from Element.prems have nc: "\<not> has_class ''_content'' as"
    and kids: "\<forall>k\<in>set kids. select_content k = []"
    by (auto split: if_splits)
  with Element.IH show ?case by simp
qed

lemma no_region_no_blocks:
  "select_content n = [] \<Longrightarrow> find_code False False n = []"
proof (induction n)
  case (Text s)
  show ?case by simp
next
  case (Element t as kids)
  from Element.prems have nc: "\<not> has_class ''_content'' as"
    and kids: "\<forall>k\<in>set kids. select_content k = []"
    by (auto split: if_splits)
  with Element.IH show ?case by simp
qed

lemma no_region_no_tags:
  "select_content n = [] \<Longrightarrow> find_tags ts False n = []"
proof (induction n)
  case (Text s)
  show ?case by simp
next
  case (Element t as kids)
  from Element.prems have nc: "\<not> has_class ''_content'' as"
    and kids: "\<forall>k\<in>set kids. select_content k = []"
    by (auto split: if_splits)
  with Element.IH show ?case by simp
qed

lemma extractKeywords_empty: "extractKeywords l [] = []"
  by (simp add: extractKeywords_def toLowerCase_def split_regex_def object_entries_def
        sort_entries_def numbers_def)

lemma trim_empty: "trim [] = []"
  by (simp add: trim_def)

text \<open>
  Claim C9. Whatever the markup, the model of the extraction is a total function of the
  parsed page, so a fetched page always gives a result. When the parsed page has no
  element of class \<open>_content\<close>, \<open>scrapePage\<close> returns a successful result: the body is
  empty, the word and character counts are \<open>0\<close>, there are no code snippets and no
  keywords, the Markdown is empty, and no error is set.
\<close>

theorem extraction_without_region:
  assumes fetched: "get_page e (page_url docSlug entry) = Inr html"
    and absent: "concat (map select_content (cheerio_load l html)) = []"
  shows "scrapePage l e docSlug entry =
           \<lparr> success = True, url = page_url docSlug entry, title = entry_name entry,
             content = [], markdown = Some [], codeSnippets = [], wordCount = 0,
             characterCount = 0, result_keywords = [],
             topics = [docSlug, entry_type entry] @ take 2 (split_char (CHR ''/'') (entry_name entry)),
             error = None \<rparr>"
proof -
  from absent have each: "\<forall>n\<in>set (cheerio_load l html). select_content n = []"
    by simp
  have c: "page_content l html = []"
    unfolding page_content_def selection_text_def absent by (simp add: trim_empty)
  have code: "concat (map (select_code False False) (cheerio_load l html)) = []"
    using each by (simp add: no_region_no_code)
  have blocks: "concat (map (find_code False False) (cheerio_load l html)) = []"
    using each by (simp add: no_region_no_blocks)
  have tags: "concat (map (find_tags ts False) (cheerio_load l html)) = []" for ts
    using each by (simp add: no_region_no_tags)
  have md: "htmlToMarkdown (cheerio_load l html) = []"
    by (simp add: htmlToMarkdown_def blocks tags trim_empty)
  have wc: "length (filter (\<lambda>w. w \<noteq> []) (split_regex is_space [])) = 0"
    by (simp add: split_regex_def)
  show ?thesis
    using fetched wc
    by (simp add: scrapePage_def extract_page_def Let_def c code md extractKeywords_empty)
qed

theorem extraction_without_region_witness:
  "scrapePage demo_lib bare_env ''react'' intro_entry =
     \<lparr> success = True, url = ''https://devdocs.io/react/intro'', title = ''Guide/Intro'',
       content = [], markdown = Some [], codeSnippets = [], wordCount = 0,
       characterCount = 0, result_keywords = [],
       topics = [''react'', ''Guide'', ''Guide'', ''Intro''], error = None \<rparr>"
proof -
  have a: "get_page bare_env (page_url ''react'' intro_entry) = Inr ''<p>no region here''"
    by (simp add: bare_env_def demo_env_def)
  have b: "concat (map select_content (cheerio_load demo_lib ''<p>no region here'')) = []"
    by (simp add: demo_lib_def has_class_def)
  show ?thesis
    using extraction_without_region[OF a b]
    by (simp add: page_url_def DEVDOCS_BASE_def intro_entry_def split_char_def)
qed

text \<open>
  Claim C8. The result of \<open>scrapePage\<close> for a fetched page is a function of the markup,
  the slug and the work item: two runs, in whatever environments, that fetch the same
  markup for the same work item produce the same \<open>ScrapeResult\<close>, field by field, and
  the same fingerprint, which is the digest of the body text of that markup.
\<close>

theorem extraction_deterministic:
  assumes "get_page e1 (page_url docSlug entry) = Inr html"
    and "get_page e2 (page_url docSlug entry) = Inr html"
  shows "scrapePage l e1 docSlug entry = extract_page l docSlug entry html
       \<and> scrapePage l e2 docSlug entry = scrapePage l e1 docSlug entry
       \<and> contentHash l (scrapePage l e2 docSlug entry) = contentHash l (scrapePage l e1 docSlug entry)
       \<and> contentHash l (scrapePage l e1 docSlug entry) = sha256_hex l (page_content l html)"
  using assms by (simp add: scrapePage_def contentHash_def extract_page_def Let_def)

theorem extraction_deterministic_witness:
  "scrapePage demo_lib write_outage_env ''react'' intro_entry
     = scrapePage demo_lib demo_env ''react'' intro_entry
   \<and> contentHash demo_lib (scrapePage demo_lib demo_env ''react'' intro_entry)
     = ''sha256:Intro text''"
proof -
  have a: "get_page demo_env (page_url ''react'' intro_entry)
             = Inr ''<div class=_content>Intro text</div>''"
    by (simp add: demo_env_def page_url_def DEVDOCS_BASE_def intro_entry_def)
  have b: "get_page write_outage_env (page_url ''react'' intro_entry)
             = Inr ''<div class=_content>Intro text</div>''"
    by (simp add: write_outage_env_def demo_env_def page_url_def DEVDOCS_BASE_def intro_entry_def)
  have c: "page_content demo_lib ''<div class=_content>Intro text</div>'' = ''Intro text''"
    by (simp add: page_content_def demo_lib_def selection_text_def has_class_def
          split_regex_def is_space_def trim_def)
  have d: "sha256_hex demo_lib ''Intro text'' = ''sha256:Intro text''"
    by (simp add: demo_lib_def)
  note t = extraction_deterministic[OF a b, of demo_lib]
  from t have same: "scrapePage demo_lib write_outage_env ''react'' intro_entry
      = scrapePage demo_lib demo_env ''react'' intro_entry"
    by blast
  from t have "contentHash demo_lib (scrapePage demo_lib demo_env ''react'' intro_entry)
      = sha256_hex demo_lib (page_content demo_lib ''<div class=_content>Intro text</div>'')"
    by blast
  then have "contentHash demo_lib (scrapePage demo_lib demo_env ''react'' intro_entry)
      = ''sha256:Intro text''"
    by (simp only: c d)
  with same show ?thesis by blast
qed

section \<open>A failing index\<close>

text \<open>
  Claim C2, as the spec has it: when the fetch of the index fails, the Job goes from
  \<open>pending\<close> to \<open>failed\<close> with a recorded message. On the site whose index answers
  HTTP 500 the run ends with the thrown error and the state it started from: the Job is
  still \<open>pending\<close>, it is not \<open>failed\<close>, and no message is recorded.
\<close>

theorem manifest_failure_counterexample:
  "scrapeDoc demo_lib demo_config broken_index_env ''react'' False fresh_world
     = Some (Inl (JsError ''Request failed with status code 500''), fresh_world)
   \<and> status (job fresh_world) = Pending
   \<and> status (job fresh_world) \<noteq> Failed
   \<and> error_message (job fresh_world) = None
   \<and> job_log fresh_world = []"
  by (simp add: scrapeDoc_def getDocEntries_def broken_index_env_def demo_env_def
        fresh_world_def new_job_def)

text \<open>
  Claim C2, amended. When the fetch of the index fails, \<open>scrapeDoc\<close> throws the error of
  the fetch to its caller and leaves the state as it was: no call to the job store or the
  content store is made, no page is fetched, and the Job keeps its status and its total.
\<close>

theorem manifest_failure_rethrown:
  assumes "get_index e (index_url docSlug) = Inl err"
  shows "scrapeDoc l c e docSlug onProgress w = Some (Inl err, w)"
  using assms by (simp add: scrapeDoc_def getDocEntries_def)

theorem manifest_failure_rethrown_witness:
  "get_index broken_index_env (index_url ''react'') = Inl (JsError ''Request failed with status code 500'')
   \<and> scrapeDoc demo_lib demo_config broken_index_env ''react'' True fresh_world
     = Some (Inl (JsError ''Request failed with status code 500''), fresh_world)"
proof -
  have a: "get_index broken_index_env (index_url ''react'') = Inl (JsError ''Request failed with status code 500'')"
    by (simp add: broken_index_env_def demo_env_def)
  show ?thesis using a manifest_failure_rethrown[OF a] by simp
qed

section \<open>Counting the results of a run\<close>

lemma success_scrapePage: "success (scrapePage l e docSlug x) = (\<not> fetch_fails e docSlug x)"
  by (simp add: scrapePage_def fetch_fails_def extract_page_def Let_def split: sum.splits)

lemma saveContent_keeps:
  "job (saveContent l e r d w) = job w"
  "job_log (saveContent l e r d w) = job_log w"
  "job_calls (saveContent l e r d w) = job_calls w"
  "fetch_log (saveContent l e r d w) = fetch_log w"
  "reported (saveContent l e r d w) = reported w"
  "now (saveContent l e r d w) = now w"
  by (simp_all add: saveContent_def Let_def split: option.splits)

lemma successCount_record_result:
  "successCount (record_result l e d cb n r st) = (if success r then successCount st + 1 else successCount st)"
  by (simp add: record_result_def Let_def)

lemma failedCount_record_result:
  "failedCount (record_result l e d cb n r st) = (if success r then failedCount st else failedCount st + 1)"
  by (simp add: record_result_def Let_def)

lemma run_counts:
  assumes k: "0 < concurrency c"
  shows "\<exists>st'. batch_loop l c e docSlug onProgress entries 0 st0 = Some st'
      \<and> successCount st' = successCount st0 + length (filter (\<lambda>x. \<not> fetch_fails e docSlug x) entries)
      \<and> failedCount st' = failedCount st0 + length (filter (fetch_fails e docSlug) entries)"
  by (rule run_invariant[where J = "\<lambda>es st.
        successCount st = successCount st0 + length (filter (\<lambda>x. \<not> fetch_fails e docSlug x) es)
      \<and> failedCount st = failedCount st0 + length (filter (fetch_fails e docSlug) es)", OF k])
    (simp_all add: successCount_record_result failedCount_record_result success_scrapePage)

lemma scrapeDoc_returns:
  assumes idx: "get_index e (index_url docSlug) = Inr (Some entries)"
    and k: "0 < concurrency c"
  shows "\<exists>st. batch_loop l c e docSlug onProgress entries 0
              \<lparr> world_of = updateJob e (Started (length entries) (now w)) w,
                successCount = 0, failedCount = 0 \<rparr> = Some st
          \<and> scrapeDoc l c e docSlug onProgress w
              = Some (Inr \<lparr> c_success = successCount st, c_failed = failedCount st,
                             c_total = length entries \<rparr>,
                      updateJob e (Finished (now (world_of st))) (world_of st))"
proof -
  from run_counts[OF k] obtain st where
    "batch_loop l c e docSlug onProgress entries 0
              \<lparr> world_of = updateJob e (Started (length entries) (now w)) w,
                successCount = 0, failedCount = 0 \<rparr> = Some st"
    by blast
  then show ?thesis
    using idx by (simp add: scrapeDoc_def getDocEntries_def Let_def)
qed

lemma new_scraper_concurrency: "0 < concurrency (new_scraper pc)"
  by (simp add: new_scraper_def or_default_def split: option.splits)

lemma updateJob_fields:
  "job_log (updateJob e u w) = job_log w @ [(u, job (updateJob e u w))]"
  "job_calls (updateJob e u w) = job_calls w + 1"
  "rows (updateJob e u w) = rows w"
  "next_id (updateJob e u w) = next_id w"
  "db_calls (updateJob e u w) = db_calls w"
  "sourceId (updateJob e u w) = sourceId w"
  "now (updateJob e u w) = now w"
  "fetch_log (updateJob e u w) = fetch_log w"
  "reported (updateJob e u w) = reported w"
  by (simp_all add: updateJob_def Let_def)

lemma updateJob_job:
  "job (updateJob e u w) = (if job_store_up e (job_calls w) then merge_update u (job w) else job w)"
  by (simp add: updateJob_def Let_def)

lemma demo_fetch_fails:
  "fetch_fails (demo_env\<lparr> content_store_up := f \<rparr>) ''react'' x = (entry_path x = ''hooks'')"
  by (simp add: fetch_fails_def demo_env_def page_url_def DEVDOCS_BASE_def)

lemma length_filter_split:
  "length (filter (\<lambda>x. \<not> P x) xs) = length xs - length (filter P xs)"
  using sum_length_filter_compl[of P xs] by arith

lemma job_log_record_result:
  "length (job_log (world_of (record_result l e d cb n r st))) = length (job_log (world_of st)) + 1"
  by (simp add: record_result_def Let_def updateJob_fields saveContent_keeps)

lemma run_job_log_length:
  assumes k: "0 < concurrency c"
  shows "\<exists>st'. batch_loop l c e docSlug onProgress entries 0 st0 = Some st'
      \<and> length (job_log (world_of st')) = length (job_log (world_of st0)) + length entries"
  by (rule run_invariant[where J = "\<lambda>es st.
        length (job_log (world_of st)) = length (job_log (world_of st0)) + length es", OF k])
    (simp_all add: job_log_record_result delay_def)

lemma extract_page_fields:
  "success (extract_page l d x h) = True"
  "url (extract_page l d x h) = page_url d x"
  "content (extract_page l d x h) = page_content l h"
  by (simp_all add: extract_page_def Let_def)

lemma scrapePage_url: "url (scrapePage l e d x) = page_url d x"
  by (simp add: scrapePage_def extract_page_fields split: sum.splits)

lemma saveContent_outage:
  assumes "\<forall>n. \<not> content_store_up e n"
  shows "rows (saveContent l e r d w) = rows w"
  using assms by (simp add: saveContent_def Let_def split: option.splits)

lemma rows_record_result_outage:
  assumes "\<forall>n. \<not> content_store_up e n"
  shows "rows (world_of (record_result l e d cb n r st)) = rows (world_of st)"
  by (simp add: record_result_def Let_def updateJob_fields saveContent_outage[OF assms])

lemma batch_loop_single:
  assumes "0 < concurrency c" "length entries \<le> concurrency c" "entries \<noteq> []"
  shows "batch_loop l c e d cb entries 0 st = Some (run_batch l c e d cb entries 0 st)"
proof -
  have "batch_loop l c e d cb entries 0 st
      = batch_loop l c e d cb entries (0 + concurrency c) (run_batch l c e d cb entries 0 st)"
    using assms by (subst batch_loop.simps) simp
  also have "\<dots> = Some (run_batch l c e d cb entries 0 st)"
    using assms by (subst batch_loop.simps) simp
  finally show ?thesis .
qed

section \<open>Failures of single items and of the stores\<close>

text \<open>
  Claim C5. When the index is fetched, the concurrency is positive and the page of
  exactly one of the \<open>n\<close> entries cannot be fetched, \<open>scrapeDoc\<close> returns the counts
  \<open>failed = 1\<close>, \<open>success = n - 1\<close> and \<open>total = n\<close>; the job store was called
  once for every entry, once before and once after; the last call is the one that sets
  \<open>completed\<close>, and the Job has that status whenever this call went through.
\<close>

theorem single_fetch_failure_isolated:
  assumes idx: "get_index e (index_url docSlug) = Inr (Some entries)"
    and k: "0 < concurrency c"
    and one: "length (filter (fetch_fails e docSlug) entries) = 1"
  shows "\<exists>w' t. scrapeDoc l c e docSlug onProgress w
            = Some (Inr \<lparr> c_success = length entries - 1, c_failed = 1,
                           c_total = length entries \<rparr>, w')
          \<and> length (job_log w') = length (job_log w) + length entries + 2
          \<and> last (job_log w') = (Finished t, job w')
          \<and> (job_store_up e (job_calls w' - 1) \<longrightarrow> status (job w') = Completed)"
proof -
  let ?st0 = "\<lparr> world_of = updateJob e (Started (length entries) (now w)) w,
                successCount = 0, failedCount = 0 \<rparr>"
  from scrapeDoc_returns[OF idx k] obtain st where
    loop: "batch_loop l c e docSlug onProgress entries 0 ?st0 = Some st"
    and run: "scrapeDoc l c e docSlug onProgress w
              = Some (Inr \<lparr> c_success = successCount st, c_failed = failedCount st,
                             c_total = length entries \<rparr>,
                      updateJob e (Finished (now (world_of st))) (world_of st))"
    by blast
  from run_counts[OF k, of l e docSlug onProgress entries ?st0] loop
  have counts: "successCount st = length entries - 1" "failedCount st = 1"
    by (auto simp: one length_filter_split)
  from run_job_log_length[OF k, of l e docSlug onProgress entries ?st0] loop
  have len: "length (job_log (world_of st)) = length (job_log w) + length entries + 1"
    by (auto simp: updateJob_fields)
  let ?w' = "updateJob e (Finished (now (world_of st))) (world_of st)"
  have "last (job_log ?w') = (Finished (now (world_of st)), job ?w')"
    by (simp add: updateJob_fields)
  moreover have "job_store_up e (job_calls ?w' - 1) \<longrightarrow> status (job ?w') = Completed"
    by (simp add: updateJob_fields updateJob_job)
  moreover have "length (job_log ?w') = length (job_log w) + length entries + 2"
    by (simp add: updateJob_fields len)
  ultimately show ?thesis using run counts by auto
qed

theorem single_fetch_failure_isolated_witness:
  "\<exists>w' t. scrapeDoc demo_lib demo_config demo_env ''react'' False fresh_world
            = Some (Inr \<lparr> c_success = 2, c_failed = 1, c_total = 3 \<rparr>, w')
          \<and> length (job_log w') = 5
          \<and> last (job_log w') = (Finished t, job w')
          \<and> status (job w') = Completed"
proof -
  have idx: "get_index demo_env (index_url ''react'') = Inr (Some demo_entries)"
    by (simp add: demo_env_def index_url_def DEVDOCS_BASE_def)
  have k: "0 < concurrency demo_config"
    by (simp add: demo_config_def new_scraper_def or_default_def)
  have up: "job_store_up demo_env n" for n
    by (simp add: demo_env_def)
  have one: "length (filter (fetch_fails demo_env ''react'') demo_entries) = 1"
    using demo_fetch_fails[of "content_store_up demo_env"]
    by (simp add: demo_entries_def intro_entry_def hooks_entry_def api_entry_def)
  have n: "length demo_entries = 3" by (simp add: demo_entries_def)
  have l0: "job_log fresh_world = []" by (simp add: fresh_world_def)
  show ?thesis
    using single_fetch_failure_isolated[OF idx k one, of demo_lib False fresh_world]
    unfolding n l0 by (simp add: up)
qed

text \<open>
  Claim C6, as the spec has it: an item whose write to the content store fails counts as
  failed. On the site of one page where the insert throws, the run returns
  \<open>failed = 0\<close> and \<open>success = 1\<close>, and the Job shows \<open>urls_failed = 0\<close> and
  \<open>items_scraped = 1\<close>, while no row was stored for the page.
\<close>

theorem failed_write_counterexample:
  "fst (the (scrapeDoc demo_lib demo_config write_outage_env ''react'' False fresh_world))
     = Inr \<lparr> c_success = 1, c_failed = 0, c_total = 1 \<rparr>
   \<and> rows (snd (the (scrapeDoc demo_lib demo_config write_outage_env ''react'' False fresh_world)))
        ''https://devdocs.io/react/intro'' = None
   \<and> db_calls (snd (the (scrapeDoc demo_lib demo_config write_outage_env ''react'' False fresh_world))) = 3
   \<and> urls_failed (job (snd (the (scrapeDoc demo_lib demo_config write_outage_env ''react'' False fresh_world)))) = 0
   \<and> items_scraped (job (snd (the (scrapeDoc demo_lib demo_config write_outage_env ''react'' False fresh_world)))) = 1"
proof -
  have e1: "get_index write_outage_env u = Inr (Some [intro_entry])" for u
    by (simp add: write_outage_env_def)
  have e2: "content_store_up write_outage_env n = (n < 2)" for n
    by (simp add: write_outage_env_def)
  have e3: "job_store_up write_outage_env n" for n
    by (simp add: write_outage_env_def demo_env_def)
  have e4: "source_row write_outage_env = Some ''source-1''"
    by (simp add: write_outage_env_def demo_env_def)
  have u: "page_url ''react'' intro_entry = ''https://devdocs.io/react/intro''"
    by (simp add: page_url_def DEVDOCS_BASE_def intro_entry_def)
  have r: "scrapePage demo_lib write_outage_env ''react'' intro_entry
        = extract_page demo_lib ''react'' intro_entry ''<div class=_content>Intro text</div>''"
    by (simp add: scrapePage_def u) (simp add: write_outage_env_def demo_env_def)
  have k: "concurrency demo_config = 2"
    by (simp add: demo_config_def new_scraper_def or_default_def)
  note loop = batch_loop_single[of demo_config "[intro_entry]", unfolded k, simplified]
  show ?thesis
    by (simp add: scrapeDoc_def getDocEntries_def e1 loop run_batch_def slice_def k
          record_result_def Let_def r extract_page_fields u saveContent_def updateJob_def
          e2 e3 e4 fresh_world_def new_job_def)
qed

text \<open>
  Claim C6, amended. \<open>saveContent\<close> catches what the content store throws, and
  \<open>scrapeDoc\<close> counts every fetched item as a success: whichever calls to the content
  store throw, the failed counter counts the failed fetches only, the success counter
  counts every fetched page, and the run goes through all items. When every call to the
  content store throws, the table is left as it was, and the counts are still these.
\<close>

theorem failed_write_counts_as_success:
  assumes idx: "get_index e (index_url docSlug) = Inr (Some entries)"
    and k: "0 < concurrency c"
  shows "\<exists>w'. scrapeDoc l c e docSlug onProgress w
            = Some (Inr \<lparr> c_success = length (filter (\<lambda>x. \<not> fetch_fails e docSlug x) entries),
                           c_failed = length (filter (fetch_fails e docSlug) entries),
                           c_total = length entries \<rparr>, w')
          \<and> ((\<forall>n. \<not> content_store_up e n) \<longrightarrow> rows w' = rows w)"
proof -
  let ?st0 = "\<lparr> world_of = updateJob e (Started (length entries) (now w)) w,
                successCount = 0, failedCount = 0 \<rparr>"
  from scrapeDoc_returns[OF idx k] obtain st where
    loop: "batch_loop l c e docSlug onProgress entries 0 ?st0 = Some st"
    and run: "scrapeDoc l c e docSlug onProgress w
              = Some (Inr \<lparr> c_success = successCount st, c_failed = failedCount st,
                             c_total = length entries \<rparr>,
                      updateJob e (Finished (now (world_of st))) (world_of st))"
    by blast
  from run_counts[OF k, of l e docSlug onProgress entries ?st0] loop
  have counts: "successCount st = length (filter (\<lambda>x. \<not> fetch_fails e docSlug x) entries)"
    "failedCount st = length (filter (fetch_fails e docSlug) entries)"
    by auto
  have "rows (world_of st) = rows w" if down: "\<forall>n. \<not> content_store_up e n"
  proof -
    have "\<exists>st'. batch_loop l c e docSlug onProgress entries 0 ?st0 = Some st'
        \<and> rows (world_of st') = rows w"
      by (rule run_invariant[where J = "\<lambda>es st. rows (world_of st) = rows w", OF k])
        (simp_all add: rows_record_result_outage[OF down] updateJob_fields delay_def)
    with loop show ?thesis by auto
  qed
  then show ?thesis using run counts by (simp add: updateJob_fields)
qed

theorem failed_write_counts_as_success_witness:
  "\<exists>w'. scrapeDoc demo_lib demo_config content_outage_env ''react'' True fresh_world
            = Some (Inr \<lparr> c_success = 2, c_failed = 1, c_total = 3 \<rparr>, w')
          \<and> rows w' = rows fresh_world"
proof -
  have idx: "get_index content_outage_env (index_url ''react'') = Inr (Some demo_entries)"
    by (simp add: content_outage_env_def demo_env_def index_url_def DEVDOCS_BASE_def)
  have k: "0 < concurrency demo_config"
    by (simp add: demo_config_def new_scraper_def or_default_def)
  have down: "\<forall>n. \<not> content_store_up content_outage_env n"
    by (simp add: content_outage_env_def)
  have n: "length (filter (\<lambda>x. \<not> fetch_fails content_outage_env ''react'' x) demo_entries) = 2"
    "length (filter (fetch_fails content_outage_env ''react'') demo_entries) = 1"
    "length demo_entries = 3"
    unfolding content_outage_env_def demo_fetch_fails
    by (simp_all add: demo_entries_def intro_entry_def hooks_entry_def api_entry_def)
  show ?thesis
    using failed_write_counts_as_success[OF idx k, of demo_lib True fresh_world] down
    unfolding n by simp
qed

lemma job_calls_record_result:
  "job_calls (world_of (record_result l e d cb n r st)) = job_calls (world_of st) + 1"
  by (simp add: record_result_def Let_def updateJob_fields saveContent_keeps)

lemma run_job_calls:
  assumes k: "0 < concurrency c"
  shows "\<exists>st'. batch_loop l c e docSlug onProgress entries 0 st0 = Some st'
      \<and> job_calls (world_of st') = job_calls (world_of st0) + length entries"
  by (rule run_invariant[where J = "\<lambda>es st.
        job_calls (world_of st) = job_calls (world_of st0) + length es", OF k])
    (simp_all add: job_calls_record_result delay_def)

lemma saveContent_first_call_throws:
  assumes "\<not> content_store_up e (db_calls w)"
  shows "rows (saveContent l e r d w) = rows w"
  using assms by (simp add: saveContent_def Let_def split: option.splits)

text \<open>
  Claim C10. A call of \<open>updateJob\<close> whose write throws returns with the Job as it was,
  and a call of \<open>saveContent\<close> whose first store call throws returns with the table as
  it was. So for a scraper built by the constructor and an index that is fetched,
  whichever calls to the job store and the content store throw, \<open>scrapeDoc\<close> returns
  its counts: the fetched pages, the failed fetches and the length of the index. It has
  called the job store once for every entry, once before and once after; the last call is
  the one that sets \<open>completed\<close>, and the Job has that status whenever this call went
  through.
\<close>

theorem outage_never_propagates:
  assumes idx: "get_index e (index_url docSlug) = Inr (Some entries)"
  shows "\<exists>w' t. scrapeDoc l (new_scraper pc) e docSlug onProgress w
            = Some (Inr \<lparr> c_success = length (filter (\<lambda>x. \<not> fetch_fails e docSlug x) entries),
                           c_failed = length (filter (fetch_fails e docSlug) entries),
                           c_total = length entries \<rparr>, w')
          \<and> job_calls w' = job_calls w + length entries + 2
          \<and> last (job_log w') = (Finished t, job w')
          \<and> (job_store_up e (job_calls w' - 1) \<longrightarrow> status (job w') = Completed)
          \<and> (\<not> job_store_up e (job_calls w) \<longrightarrow> job (updateJob e u w) = job w)
          \<and> (\<not> content_store_up e (db_calls w) \<longrightarrow> rows (saveContent l e r docSlug w) = rows w)"
proof -
  let ?c = "new_scraper pc"
  let ?st0 = "\<lparr> world_of = updateJob e (Started (length entries) (now w)) w,
                successCount = 0, failedCount = 0 \<rparr>"
  from scrapeDoc_returns[OF idx new_scraper_concurrency] obtain st where
    loop: "batch_loop l ?c e docSlug onProgress entries 0 ?st0 = Some st"
    and run: "scrapeDoc l ?c e docSlug onProgress w
              = Some (Inr \<lparr> c_success = successCount st, c_failed = failedCount st,
                             c_total = length entries \<rparr>,
                      updateJob e (Finished (now (world_of st))) (world_of st))"
    by blast
  from run_counts[OF new_scraper_concurrency, of l pc e docSlug onProgress entries ?st0] loop
  have counts: "successCount st = length (filter (\<lambda>x. \<not> fetch_fails e docSlug x) entries)"
    "failedCount st = length (filter (fetch_fails e docSlug) entries)"
    by auto
  from run_job_calls[OF new_scraper_concurrency, of l pc e docSlug onProgress entries ?st0] loop
  have calls: "job_calls (world_of st) = job_calls w + length entries + 1"
    by (auto simp: updateJob_fields)
  let ?w' = "updateJob e (Finished (now (world_of st))) (world_of st)"
  have "last (job_log ?w') = (Finished (now (world_of st)), job ?w')"
    by (simp add: updateJob_fields)
  moreover have "job_store_up e (job_calls ?w' - 1) \<longrightarrow> status (job ?w') = Completed"
    by (simp add: updateJob_fields updateJob_job)
  moreover have "job_calls ?w' = job_calls w + length entries + 2"
    by (simp add: updateJob_fields calls)
  moreover have "\<not> job_store_up e (job_calls w) \<longrightarrow> job (updateJob e u w) = job w"
    by (simp add: updateJob_job)
  moreover have "\<not> content_store_up e (db_calls w) \<longrightarrow> rows (saveContent l e r docSlug w) = rows w"
    by (simp add: saveContent_first_call_throws)
  ultimately show ?thesis using run[unfolded counts] by blast
qed

theorem outage_never_propagates_witness:
  "\<exists>w' t. scrapeDoc demo_lib demo_config flaky_env ''react'' False fresh_world
            = Some (Inr \<lparr> c_success = 2, c_failed = 1, c_total = 3 \<rparr>, w')
          \<and> job_calls w' = 5
          \<and> last (job_log w') = (Finished t, job w')
          \<and> status (job w') = Completed
          \<and> job (updateJob flaky_env (Started 3 0) fresh_world) = job fresh_world
          \<and> rows (saveContent demo_lib flaky_env
                (scrapePage demo_lib flaky_env ''react'' intro_entry) ''react'' fresh_world)
              = rows fresh_world"
proof -
  have idx: "get_index flaky_env (index_url ''react'') = Inr (Some demo_entries)"
    by (simp add: flaky_env_def demo_env_def index_url_def DEVDOCS_BASE_def)
  have up: "job_store_up flaky_env n = (0 < n)" "\<not> content_store_up flaky_env n" for n
    by (simp_all add: flaky_env_def)
  have f: "job_calls fresh_world = 0" "db_calls fresh_world = 0"
    by (simp_all add: fresh_world_def)
  have ff: "fetch_fails flaky_env ''react'' x = (entry_path x = ''hooks'')" for x
    by (simp add: fetch_fails_def flaky_env_def demo_env_def page_url_def DEVDOCS_BASE_def)
  have n: "length (filter (\<lambda>x. \<not> fetch_fails flaky_env ''react'' x) demo_entries) = 2"
    "length (filter (fetch_fails flaky_env ''react'') demo_entries) = 1"
    "length demo_entries = 3"
    unfolding ff
    by (simp_all add: demo_entries_def intro_entry_def hooks_entry_def api_entry_def)
  from outage_never_propagates[OF idx, of demo_lib
        "\<lparr> p_concurrency = Some 2, p_delayMs = None, p_timeoutMs = None,
      p_maxRetries = None, p_rateLimitPerMinute = None, p_rateLimitPerHour = None \<rparr>" False fresh_world
        "Started 3 0" "scrapePage demo_lib flaky_env ''react'' intro_entry"]
  show ?thesis
    unfolding n demo_config_def[symmetric] f by (auto simp: up)
qed

section \<open>The dedup decision of \<open>saveContent\<close>\<close>

lemma saveContent_resolved:
  assumes src: "resolved_source e w = Some sid"
    and up: "\<forall>n. db_calls w \<le> n \<and> n < db_calls w + 3 \<longrightarrow> content_store_up e n"
  shows "rows (saveContent l e r d w) =
           (case spec_decide (rows w) (url r) (contentHash l r) of
              New \<Rightarrow> (rows w)(url r \<mapsto> contentData r sid (contentHash l r) (next_id w))
            | Changed \<Rightarrow> (rows w)(url r \<mapsto>
                  contentData r sid (contentHash l r) (row_id (the (rows w (url r)))))
            | Unchanged \<Rightarrow> rows w)"
    and "next_id (saveContent l e r d w) =
           (case spec_decide (rows w) (url r) (contentHash l r) of
              New \<Rightarrow> next_id w + 1 | Changed \<Rightarrow> next_id w | Unchanged \<Rightarrow> next_id w)"
    and "db_calls (saveContent l e r d w) =
           db_calls w + (if sourceId w = None then 1 else 0)
           + (case spec_decide (rows w) (url r) (contentHash l r) of
                New \<Rightarrow> 2 | Changed \<Rightarrow> 2 | Unchanged \<Rightarrow> 1)"
    and "sourceId (saveContent l e r d w) = Some sid"
proof -
  have u0: "content_store_up e (db_calls w)" and u1: "content_store_up e (db_calls w + 1)"
    and u2: "content_store_up e (db_calls w + 2)"
    using up by auto
  show "rows (saveContent l e r d w) =
           (case spec_decide (rows w) (url r) (contentHash l r) of
              New \<Rightarrow> (rows w)(url r \<mapsto> contentData r sid (contentHash l r) (next_id w))
            | Changed \<Rightarrow> (rows w)(url r \<mapsto>
                  contentData r sid (contentHash l r) (row_id (the (rows w (url r)))))
            | Unchanged \<Rightarrow> rows w)"
    using src u0 u1 u2
    by (cases "sourceId w")
       (auto simp: saveContent_def Let_def spec_decide_def resolved_source_def split: option.splits if_splits)
  show "next_id (saveContent l e r d w) =
           (case spec_decide (rows w) (url r) (contentHash l r) of
              New \<Rightarrow> next_id w + 1 | Changed \<Rightarrow> next_id w | Unchanged \<Rightarrow> next_id w)"
    using src u0 u1 u2
    by (cases "sourceId w")
       (auto simp: saveContent_def Let_def spec_decide_def resolved_source_def split: option.splits if_splits)
  show "db_calls (saveContent l e r d w) =
           db_calls w + (if sourceId w = None then 1 else 0)
           + (case spec_decide (rows w) (url r) (contentHash l r) of
                New \<Rightarrow> 2 | Changed \<Rightarrow> 2 | Unchanged \<Rightarrow> 1)"
    using src u0 u1 u2
    by (cases "sourceId w")
       (auto simp: saveContent_def Let_def spec_decide_def resolved_source_def split: option.splits if_splits)
  show "sourceId (saveContent l e r d w) = Some sid"
    using src u0 u1 u2
    by (cases "sourceId w")
       (auto simp: saveContent_def Let_def spec_decide_def resolved_source_def split: option.splits if_splits)
qed

lemma scrapePage_fetched:
  assumes "get_page e (page_url d x) = Inr html"
  shows "scrapePage l e d x = extract_page l d x html"
  using assms by (simp add: scrapePage_def)

text \<open>
  Claim C7, as the spec has it: the fingerprint is computed over the body text only and
  excludes the code blocks. The body text is the text of the whole content region, the
  code elements inside it included: the two versions of a page that differ only in the
  text of one code block have different body texts and different fingerprints, and
  saving the second version over the stored first one is decided \<open>Changed\<close> and
  rewrites the row.
\<close>

theorem code_block_changes_fingerprint:
  "content (scrapePage demo_lib code_v1_env ''react'' api_entry) = ''Introx = 1''
   \<and> content (scrapePage demo_lib code_v2_env ''react'' api_entry) = ''Introx = 2''
   \<and> codeSnippets (scrapePage demo_lib code_v1_env ''react'' api_entry)
        = [\<lparr> language = ''plaintext'', code = ''x = 1'' \<rparr>]
   \<and> codeSnippets (scrapePage demo_lib code_v2_env ''react'' api_entry)
        = [\<lparr> language = ''plaintext'', code = ''x = 2'' \<rparr>]
   \<and> contentHash demo_lib (scrapePage demo_lib code_v1_env ''react'' api_entry)
        \<noteq> contentHash demo_lib (scrapePage demo_lib code_v2_env ''react'' api_entry)
   \<and> content_hash (the (rows code_v1_world ''https://devdocs.io/react/api''))
        = ''sha256:Introx = 1''
   \<and> spec_decide (rows code_v1_world) ''https://devdocs.io/react/api''
        (contentHash demo_lib (scrapePage demo_lib code_v2_env ''react'' api_entry)) = Changed
   \<and> content_hash (the (rows (saveContent demo_lib code_v2_env
          (scrapePage demo_lib code_v2_env ''react'' api_entry) ''react'' code_v1_world)
          ''https://devdocs.io/react/api''))
        = ''sha256:Introx = 2''"
proof -
  have u: "page_url ''react'' api_entry = ''https://devdocs.io/react/api''"
    by (simp add: page_url_def DEVDOCS_BASE_def api_entry_def)
  have r1: "scrapePage demo_lib code_v1_env ''react'' api_entry
      = extract_page demo_lib ''react'' api_entry
          ''<div class=_content>Intro<pre><code>x = 1</code></pre></div>''"
    by (simp add: scrapePage_def code_v1_env_def)
  have r2: "scrapePage demo_lib code_v2_env ''react'' api_entry
      = extract_page demo_lib ''react'' api_entry
          ''<div class=_content>Intro<pre><code>x = 2</code></pre></div>''"
    by (simp add: scrapePage_def code_v2_env_def)
  have c1: "page_content demo_lib ''<div class=_content>Intro<pre><code>x = 1</code></pre></div>''
      = ''Introx = 1''"
    by (simp add: page_content_def demo_lib_def selection_text_def has_class_def
          split_regex_def is_space_def trim_def)
  have c2: "page_content demo_lib ''<div class=_content>Intro<pre><code>x = 2</code></pre></div>''
      = ''Introx = 2''"
    by (simp add: page_content_def demo_lib_def selection_text_def has_class_def
          split_regex_def is_space_def trim_def)
  have s1: "codeSnippets (extract_page demo_lib ''react'' api_entry
          ''<div class=_content>Intro<pre><code>x = 1</code></pre></div>'')
        = [\<lparr> language = ''plaintext'', code = ''x = 1'' \<rparr>]"
    by (simp add: extract_page_def Let_def demo_lib_def has_class_def split_regex_def
          is_space_def trim_def code_language_def attr_def)
  have s2: "codeSnippets (extract_page demo_lib ''react'' api_entry
          ''<div class=_content>Intro<pre><code>x = 2</code></pre></div>'')
        = [\<lparr> language = ''plaintext'', code = ''x = 2'' \<rparr>]"
    by (simp add: extract_page_def Let_def demo_lib_def has_class_def split_regex_def
          is_space_def trim_def code_language_def attr_def)
  have h: "sha256_hex demo_lib x = ''sha256:'' @ x" for x
    by (simp add: demo_lib_def)
  have e1: "content_store_up code_v1_env n" "source_row code_v1_env = Some ''source-1''"
    "content_store_up code_v2_env n" "source_row code_v2_env = Some ''source-1''" for n
    by (simp_all add: code_v1_env_def code_v2_env_def demo_env_def)
  have w1: "rows code_v1_world ''https://devdocs.io/react/api''
      = Some (contentData (extract_page demo_lib ''react'' api_entry
          ''<div class=_content>Intro<pre><code>x = 1</code></pre></div>'') ''source-1''
          ''sha256:Introx = 1'' 0)"
    "sourceId code_v1_world = Some ''source-1''" "db_calls code_v1_world = 3"
    by (simp_all add: code_v1_world_def r1 saveContent_def Let_def e1 fresh_world_def
          extract_page_fields u contentHash_def c1 h)
  show ?thesis
    by (simp add: r1 r2 extract_page_fields c1 c2 s1 s2 contentHash_def h spec_decide_def w1
          saveContent_def Let_def e1 u contentData_def)
qed

text \<open>
  Claim C7, amended. For a fetched item, when the source id is resolved and the calls to
  the content store go through, \<open>saveContent\<close> does what the spec's decision says: an
  insert under a fresh id when no row is stored for the URL (\<open>New\<close>), no write at all
  when the stored fingerprint equals the new one (\<open>Unchanged\<close>), an update of the
  stored row otherwise (\<open>Changed\<close>). The fingerprint is the digest of
  \<open>result.content\<close>, the trimmed text of the content region of the page (the text of
  its code elements included); the title, the Markdown, the list of code snippets, the
  counts, the keywords and the topics of the result do not enter it.
\<close>

theorem dedup_decision:
  assumes fetched: "get_page e (page_url docSlug entry) = Inr html"
    and src: "resolved_source e w = Some sid"
    and up: "\<forall>n. db_calls w \<le> n \<and> n < db_calls w + 3 \<longrightarrow> content_store_up e n"
    and r: "r = scrapePage l e docSlug entry"
    and fp: "fp = sha256_hex l (page_content l html)"
    and u: "u = page_url docSlug entry"
  shows "contentHash l r = fp
       \<and> contentHash l (r\<lparr> title := ti, markdown := md, codeSnippets := cs, wordCount := wc,
                            characterCount := cc, result_keywords := kw, topics := tp \<rparr>) = fp
       \<and> rows (saveContent l e r docSlug w) =
           (case spec_decide (rows w) u fp of
              New \<Rightarrow> (rows w)(u \<mapsto> contentData r sid fp (next_id w))
            | Changed \<Rightarrow> (rows w)(u \<mapsto> contentData r sid fp (row_id (the (rows w u))))
            | Unchanged \<Rightarrow> rows w)
       \<and> next_id (saveContent l e r docSlug w) =
           (case spec_decide (rows w) u fp of
              New \<Rightarrow> next_id w + 1 | Changed \<Rightarrow> next_id w | Unchanged \<Rightarrow> next_id w)
       \<and> db_calls (saveContent l e r docSlug w) =
           db_calls w + (if sourceId w = None then 1 else 0)
           + (case spec_decide (rows w) u fp of New \<Rightarrow> 2 | Changed \<Rightarrow> 2 | Unchanged \<Rightarrow> 1)"
proof -
  have h: "contentHash l r = fp"
    by (simp add: r fp contentHash_def scrapePage_fetched[OF fetched] extract_page_fields)
  have h': "contentHash l (r\<lparr> title := ti, markdown := md, codeSnippets := cs, wordCount := wc,
                            characterCount := cc, result_keywords := kw, topics := tp \<rparr>) = fp"
    using h by (simp add: contentHash_def)
  have ur: "url r = u"
    by (simp add: r u scrapePage_fetched[OF fetched] extract_page_fields)
  note sc = saveContent_resolved[OF src up, of l r docSlug, unfolded h ur]
  show ?thesis
    using h h' sc(1,2,3) by blast
qed

theorem dedup_decision_witness:
  "rows (saveContent demo_lib demo_env (scrapePage demo_lib demo_env ''react'' intro_entry)
           ''react'' fresh_world) ''https://devdocs.io/react/intro''
     = Some (contentData (scrapePage demo_lib demo_env ''react'' intro_entry) ''source-1''
               ''sha256:Intro text'' 0)
   \<and> next_id (saveContent demo_lib demo_env (scrapePage demo_lib demo_env ''react'' intro_entry)
           ''react'' fresh_world) = 1
   \<and> db_calls (saveContent demo_lib demo_env (scrapePage demo_lib demo_env ''react'' intro_entry)
           ''react'' fresh_world) = 3"
proof -
  have u: "''https://devdocs.io/react/intro'' = page_url ''react'' intro_entry"
    by (simp add: page_url_def DEVDOCS_BASE_def intro_entry_def)
  have a: "get_page demo_env (page_url ''react'' intro_entry)
             = Inr ''<div class=_content>Intro text</div>''"
    by (simp add: demo_env_def u[symmetric])
  have b: "resolved_source demo_env fresh_world = Some ''source-1''"
    by (simp add: resolved_source_def demo_env_def fresh_world_def)
  have c: "\<forall>n. db_calls fresh_world \<le> n \<and> n < db_calls fresh_world + 3 \<longrightarrow> content_store_up demo_env n"
    by (simp add: demo_env_def)
  have d: "''sha256:Intro text'' = sha256_hex demo_lib (page_content demo_lib ''<div class=_content>Intro text</div>'')"
    by (simp add: page_content_def demo_lib_def selection_text_def has_class_def
          split_regex_def is_space_def trim_def)
  have dec: "spec_decide Map.empty ''https://devdocs.io/react/intro'' ''sha256:Intro text'' = New"
    by (simp add: spec_decide_def)
  have w: "rows fresh_world = Map.empty" "next_id fresh_world = 0" "db_calls fresh_world = 0"
    "sourceId fresh_world = None"
    by (simp_all add: fresh_world_def)
  show ?thesis
    using dedup_decision[OF a b c refl d u, where ti = "[]" and md = None and cs = "[]"
        and wc = 0 and cc = 0 and kw = "[]" and tp = "[]"]
    by (simp add: w dec)
qed

section \<open>The groups of the batch loop\<close>

lemma record_result_fetch_log:
  "fetch_log (world_of (record_result l e d cb n r st)) = fetch_log (world_of st)"
  by (simp add: record_result_def Let_def updateJob_fields saveContent_keeps)

lemma record_result_processed:
  "successCount (record_result l e d cb n r st) + failedCount (record_result l e d cb n r st)
     = successCount st + failedCount st + 1"
  by (simp add: successCount_record_result failedCount_record_result)

lemma fold_record_result_log:
  "fetch_log (world_of (fold (record_result l e d cb n) rs st)) = fetch_log (world_of st)
   \<and> successCount (fold (record_result l e d cb n) rs st)
       + failedCount (fold (record_result l e d cb n) rs st)
     = successCount st + failedCount st + length rs"
proof (induction rs arbitrary: st)
  case Nil
  show ?case by simp
next
  case (Cons r rs)
  show ?case
    using Cons.IH[of "record_result l e d cb n r st"]
    by (simp add: record_result_fetch_log record_result_processed)
qed

lemma run_batch_log:
  "fetch_log (world_of (run_batch l c e d cb entries i st))
     = fetch_log (world_of st)
       @ [(successCount st + failedCount st, slice i (i + concurrency c) entries)]"
  "successCount (run_batch l c e d cb entries i st) + failedCount (run_batch l c e d cb entries i st)
     = successCount st + failedCount st + length (slice i (i + concurrency c) entries)"
  using fold_record_result_log[of l e d cb "length entries"
      "map (scrapePage l e d) (slice i (i + concurrency c) entries)"
      "st\<lparr> world_of := (world_of st)\<lparr> fetch_log := fetch_log (world_of st)
                  @ [(successCount st + failedCount st, slice i (i + concurrency c) entries)] \<rparr> \<rparr>"]
  by (simp_all add: run_batch_def Let_def delay_def)

lemma length_slice: "length (slice i (i + k) xs) = min k (length xs - i)"
  by (simp add: slice_def min_def)

lemma concat_groups: "concat (map snd (groups k xs m)) = take (m * k) xs"
proof (induction m)
  case 0
  show ?case by (simp add: groups_def)
next
  case (Suc m)
  have "take (m * k + k) xs = take (m * k) xs @ slice (m * k) (m * k + k) xs"
    by (rule take_add_slice)
  with Suc show ?case by (simp add: groups_def add.commute)
qed

lemma batch_loop_groups:
  assumes k: "0 < concurrency c"
  shows "\<exists>st'. batch_loop l c e d cb entries 0 st = Some st'
      \<and> fetch_log (world_of st') = fetch_log (world_of st)
          @ map (\<lambda>(p, b). (successCount st + failedCount st + p, b))
              (groups (concurrency c) entries ((length entries + concurrency c - 1) div concurrency c))"
proof -
  let ?k = "concurrency c" and ?n = "length entries"
  let ?p0 = "successCount st + failedCount st"
  let ?I = "\<lambda>i s. ?k dvd i \<and> i < ?n + ?k
      \<and> successCount s + failedCount s = ?p0 + min i ?n
      \<and> fetch_log (world_of s) = fetch_log (world_of st)
          @ map (\<lambda>(p, b). (?p0 + p, b)) (groups ?k entries (i div ?k))"
  have init: "?I 0 st" using k by (simp add: groups_def)
  have step: "?I (i + ?k) (run_batch l c e d cb entries i s)" if "i < ?n" "?I i s" for i s
  proof -
    from that obtain q where q: "i = q * ?k" by (auto simp: dvd_def mult.commute)
    have d: "(i + ?k) div ?k = Suc q" "i div ?k = q" using k q by simp_all
    have m: "min i ?n = i" using that by simp
    have "min (i + ?k) ?n = i + min ?k (?n - i)" using that(1) by (auto simp: min_def)
    then show ?thesis
      using that k unfolding run_batch_log d
      by (simp add: groups_def length_slice m q)
  qed
  from batch_loop_rule[where I = ?I, OF k init step]
  obtain st' j where loop: "batch_loop l c e d cb entries 0 st = Some st'"
    and j: "?n \<le> j" "?I j st'" by blast
  from j obtain q where q: "j = q * ?k" by (auto simp: dvd_def mult.commute)
  have jl: "q * ?k < ?n + ?k" and jn: "?n \<le> q * ?k" using j q by simp_all
  have "(?n + ?k - 1) div ?k = q"
  proof (rule div_nat_eqI)
    show "?k * q \<le> ?n + ?k - 1" using jl by (simp add: mult.commute)
    show "?n + ?k - 1 < ?k * Suc q" using jn k by (simp add: mult.commute)
  qed
  moreover have "j div ?k = q" using q k by simp
  ultimately show ?thesis using loop j by simp
qed

lemma ceil_div_bounds:
  assumes "0 < (k::nat)"
  shows "n \<le> ((n + k - 1) div k) * k" and "((n + k - 1) div k) * k < n + k"
proof -
  have "n + k - 1 < ((n + k - 1) div k) * k + k"
    using assms dividend_less_div_times[of k "n + k - 1"] by (simp add: add.commute)
  then show "n \<le> ((n + k - 1) div k) * k" using assms by arith
  have "((n + k - 1) div k) * k \<le> n + k - 1" by simp
  then show "((n + k - 1) div k) * k < n + k" using assms by arith
qed

text \<open>
  Claim C4. For an index of \<open>n\<close> entries and a concurrency \<open>k > 0\<close> the run ends, and
  it gave \<open>(n + k - 1) div k\<close> groups to \<open>Promise.all\<close>, that is the ceiling of
  \<open>n / k\<close>. The groups are consecutive slices of the entries and together they are the
  entries in order; every group but the last has \<open>k\<close> items, and the last has the
  remaining \<open>n - j * k\<close> items, at least one. When group \<open>j\<close> was issued, exactly
  \<open>j * k\<close> results had been recorded, the results of all items of the groups before
  it: a group starts after the previous one is finished.
\<close>

theorem batch_boundaries:
  assumes idx: "get_index e (index_url docSlug) = Inr (Some entries)"
    and k: "0 < concurrency c"
    and lg: "fetch_log w = []"
  shows "\<exists>r w'. scrapeDoc l c e docSlug onProgress w = Some (r, w')
      \<and> length (fetch_log w') = (length entries + concurrency c - 1) div concurrency c
      \<and> concat (map snd (fetch_log w')) = entries
      \<and> (\<forall>j < length (fetch_log w').
            snd (fetch_log w' ! j) = slice (j * concurrency c) (j * concurrency c + concurrency c) entries
          \<and> length (snd (fetch_log w' ! j))
              = (if j + 1 < length (fetch_log w') then concurrency c
                 else length entries - j * concurrency c)
          \<and> 0 < length (snd (fetch_log w' ! j))
          \<and> fst (fetch_log w' ! j) = j * concurrency c)"
proof -
  let ?k = "concurrency c" and ?n = "length entries"
  let ?m = "(?n + ?k - 1) div ?k"
  let ?st0 = "\<lparr> world_of = updateJob e (Started ?n (now w)) w,
                successCount = 0, failedCount = 0 \<rparr>"
  from scrapeDoc_returns[OF idx k] obtain st where
    loop: "batch_loop l c e docSlug onProgress entries 0 ?st0 = Some st"
    and run: "scrapeDoc l c e docSlug onProgress w
              = Some (Inr \<lparr> c_success = successCount st, c_failed = failedCount st,
                             c_total = ?n \<rparr>,
                      updateJob e (Finished (now (world_of st))) (world_of st))"
    by blast
  let ?w' = "updateJob e (Finished (now (world_of st))) (world_of st)"
  from batch_loop_groups[OF k, of l e docSlug onProgress entries ?st0] loop
  have log: "fetch_log ?w' = groups ?k entries ?m"
    by (auto simp: updateJob_fields lg)
  have len: "length (fetch_log ?w') = ?m" by (simp add: log groups_def)
  note b = ceil_div_bounds[OF k, of ?n]
  have cat: "concat (map snd (fetch_log ?w')) = entries"
    using b(1) by (simp add: log concat_groups)
  have each: "snd (fetch_log ?w' ! j) = slice (j * ?k) (j * ?k + ?k) entries
          \<and> length (snd (fetch_log ?w' ! j)) = (if j + 1 < ?m then ?k else ?n - j * ?k)
          \<and> 0 < length (snd (fetch_log ?w' ! j))
          \<and> fst (fetch_log ?w' ! j) = j * ?k" if "j < ?m" for j
  proof -
    have nth: "fetch_log ?w' ! j = (j * ?k, slice (j * ?k) (j * ?k + ?k) entries)"
      using that by (simp add: log groups_def)
    have "Suc j * ?k \<le> ?m * ?k" using that by (intro mult_le_mono1) simp
    with b(2) have lt: "j * ?k < ?n" using k by simp
    have full: "?k \<le> ?n - j * ?k" if "j + 1 < ?m"
    proof -
      have "Suc (Suc j) * ?k \<le> ?m * ?k" using that by (intro mult_le_mono1) simp
      with b(2) show ?thesis by simp
    qed
    have last: "?n - j * ?k \<le> ?k" if "\<not> j + 1 < ?m"
    proof -
      from that \<open>j < ?m\<close> have "?m = Suc j" by simp
      with b(1) show ?thesis by simp
    qed
    show ?thesis
      using lt full last k by (auto simp: nth length_slice min_def)
  qed
  have every: "\<forall>j < length (fetch_log ?w').
            snd (fetch_log ?w' ! j) = slice (j * ?k) (j * ?k + ?k) entries
          \<and> length (snd (fetch_log ?w' ! j))
              = (if j + 1 < length (fetch_log ?w') then ?k else ?n - j * ?k)
          \<and> 0 < length (snd (fetch_log ?w' ! j))
          \<and> fst (fetch_log ?w' ! j) = j * ?k"
    unfolding len using each by blast
  from run len cat every show ?thesis by blast
qed

theorem batch_boundaries_witness:
  "\<exists>r w'. scrapeDoc demo_lib demo_config demo_env ''react'' False fresh_world = Some (r, w')
      \<and> length (fetch_log w') = 2
      \<and> concat (map snd (fetch_log w')) = [intro_entry, hooks_entry, api_entry]
      \<and> fetch_log w' ! 0 = (0, [intro_entry, hooks_entry])
      \<and> fetch_log w' ! 1 = (2, [api_entry])"
proof -
  have idx: "get_index demo_env (index_url ''react'') = Inr (Some demo_entries)"
    by (simp add: demo_env_def index_url_def DEVDOCS_BASE_def)
  have k: "concurrency demo_config = 2"
    by (simp add: demo_config_def new_scraper_def or_default_def)
  have k0: "0 < concurrency demo_config" by (simp add: k)
  have lg: "fetch_log fresh_world = []" by (simp add: fresh_world_def)
  have n: "length demo_entries = 3" by (simp add: demo_entries_def)
  from batch_boundaries[OF idx k0 lg, of demo_lib False, unfolded k n] obtain r w' where
    run: "scrapeDoc demo_lib demo_config demo_env ''react'' False fresh_world = Some (r, w')"
    and len0: "length (fetch_log w') = (3 + 2 - 1) div 2"
    and cat: "concat (map snd (fetch_log w')) = demo_entries"
    and each: "\<forall>j<length (fetch_log w').
          snd (fetch_log w' ! j) = slice (j * 2) (j * 2 + 2) demo_entries
          \<and> length (snd (fetch_log w' ! j)) = (if j + 1 < length (fetch_log w') then 2 else 3 - j * 2)
          \<and> 0 < length (snd (fetch_log w' ! j))
          \<and> fst (fetch_log w' ! j) = j * 2"
    by blast
  from len0 have len: "length (fetch_log w') = 2" by simp
  from each len have "snd (fetch_log w' ! 0) = slice (0 * 2) (0 * 2 + 2) demo_entries
      \<and> fst (fetch_log w' ! 0) = 0 * 2"
    "snd (fetch_log w' ! 1) = slice (1 * 2) (1 * 2 + 2) demo_entries
      \<and> fst (fetch_log w' ! 1) = 1 * 2"
    by (metis zero_less_numeral, metis one_less_numeral_iff semiring_norm(76))
  then have "fetch_log w' ! 0 = (0, [intro_entry, hooks_entry])" "fetch_log w' ! 1 = (2, [api_entry])"
    by (auto simp: prod_eq_iff slice_def demo_entries_def)
  with run len cat show ?thesis by (auto simp: demo_entries_def)
qed

section \<open>Rounding to a double\<close>

text \<open>\<open>binade x\<close> is the exponent of a positive \<open>x\<close>.\<close>

lemma bitlen_rat_bounds:
  assumes "0 < a"
  shows "(2::rat) powi (bitlen a - 1) \<le> of_int a" and "of_int a < (2::rat) powi bitlen a"
proof -
  from bitlen_bounds[OF assms] have lo: "2 ^ nat (bitlen a - 1) \<le> a" and hi: "a < 2 ^ nat (bitlen a)"
    by simp_all
  from assms have ge: "1 \<le> bitlen a" by (auto simp: bitlen_alt_def)
  have "(2::rat) powi (bitlen a - 1) = 2 ^ nat (bitlen a - 1)"
    using ge by (simp add: power_int_nonneg_exp)
  also have "\<dots> = of_int (2 ^ nat (bitlen a - 1))" by simp
  also have "\<dots> \<le> of_int a" using lo by (simp only: of_int_le_iff)
  finally show "(2::rat) powi (bitlen a - 1) \<le> of_int a" .
  have "(of_int a :: rat) < of_int (2 ^ nat (bitlen a))" using hi by (simp only: of_int_less_iff)
  also have "\<dots> = 2 powi bitlen a" using ge by (simp add: power_int_nonneg_exp)
  finally show "of_int a < (2::rat) powi bitlen a" .
qed

lemma binade_bounds:
  assumes "0 < x"
  shows "2 powi (binade x) \<le> x" and "x < 2 powi (binade x + 1)"
proof -
  obtain a b where q: "quotient_of x = (a, b)" by force
  then have b: "0 < b" by (rule quotient_of_denom_pos)
  from q have x: "x = of_int a / of_int b" by (rule quotient_of_div)
  with assms b have a: "0 < a" by (simp add: zero_less_divide_iff)
  let ?d = "bitlen a - bitlen b"
  note A = bitlen_rat_bounds[OF a] and B = bitlen_rat_bounds[OF b]
  have bpos: "(0::rat) < of_int b" using b by simp
  have lo: "(2::rat) powi (?d - 1) < x"
  proof -
    have "(2::rat) powi (?d - 1) * of_int b < 2 powi (?d - 1) * 2 powi bitlen b"
      using B(2) by (simp add: mult_strict_left_mono)
    also have "\<dots> = 2 powi (bitlen a - 1)" by (simp flip: power_int_add)
    also have "\<dots> \<le> of_int a" by (rule A(1))
    finally show ?thesis using bpos by (simp add: x pos_less_divide_eq)
  qed
  have hi: "x < (2::rat) powi (?d + 1)"
  proof -
    have "of_int a < (2::rat) powi bitlen a" by (rule A(2))
    also have "\<dots> = 2 powi (?d + 1) * 2 powi (bitlen b - 1)" by (simp flip: power_int_add)
    also have "\<dots> \<le> 2 powi (?d + 1) * of_int b"
      using B(1) by (simp add: mult_left_mono)
    finally show ?thesis using bpos by (simp add: x pos_divide_less_eq)
  qed
  have e: "binade x = (if 2 powi ?d \<le> x then ?d else ?d - 1)"
    by (simp add: binade_def q Let_def)
  show "2 powi (binade x) \<le> x" using lo by (simp add: e)
  show "x < 2 powi (binade x + 1)" using hi by (auto simp: e not_le)
qed

lemma pow2_less_imp_less:
  assumes "(2::rat) powi m < 2 powi n"
  shows "m < n"
proof (rule ccontr)
  assume "\<not> m < n"
  then have "n \<le> m" by simp
  then have "(2::rat) powi n \<le> 2 powi m" by (rule power_int_increasing) simp
  with assms show False by simp
qed

lemma binade_eqI:
  assumes "2 powi e \<le> x" and "x < 2 powi (e + 1)"
  shows "binade x = e"
proof -
  have "(0::rat) < 2 powi e" by simp
  then have pos: "0 < x" using assms(1) by (rule less_le_trans)
  note b = binade_bounds[OF pos]
  have "(2::rat) powi e < 2 powi (binade x + 1)" using assms(1) b(2) by simp
  then have "e < binade x + 1" by (rule pow2_less_imp_less)
  moreover have "(2::rat) powi (binade x) < 2 powi (e + 1)" using assms(2) b(1) by simp
  then have "binade x < e + 1" by (rule pow2_less_imp_less)
  ultimately show ?thesis by simp
qed

lemma round_half_even_le:
  assumes "y \<le> of_int N"
  shows "round_half_even y \<le> N"
proof (cases "y = of_int N")
  case True
  then show ?thesis by (simp add: round_half_even_def)
next
  case False
  with assms have "y < of_int N" by simp
  then have "\<lfloor>y\<rfloor> < N" by (simp add: floor_less_iff)
  then show ?thesis by (simp add: round_half_even_def Let_def)
qed

lemma round_half_even_nonneg:
  assumes "0 \<le> y"
  shows "0 \<le> round_half_even y"
proof -
  from assms have "0 \<le> \<lfloor>y\<rfloor>" by simp
  then show ?thesis by (simp add: round_half_even_def Let_def)
qed

lemma round_half_even_near: "\<bar>of_int (round_half_even y) - y\<bar> \<le> 1 / 2"
proof -
  have "of_int \<lfloor>y\<rfloor> \<le> y" "y < of_int \<lfloor>y\<rfloor> + 1" by linarith+
  then show ?thesis
    by (auto simp: round_half_even_def Let_def abs_le_iff)
qed

lemma round_double_pos:
  assumes "0 < x"
  shows "round_double x = 2 powi (binade x - 52) * of_int (round_half_even (x / 2 powi (binade x - 52)))"
  using assms by (simp add: round_double_def Let_def)

lemma round_double_nonneg:
  assumes "0 \<le> x"
  shows "0 \<le> round_double x"
proof (cases "x = 0")
  case True
  then show ?thesis by (simp add: round_double_def)
next
  case False
  with assms have pos: "0 < x" by simp
  have "0 \<le> x / 2 powi (binade x - 52)" using pos by simp
  then have "0 \<le> round_half_even (x / 2 powi (binade x - 52))" by (rule round_half_even_nonneg)
  then show ?thesis by (simp add: round_double_pos[OF pos])
qed

text \<open>Rounding does not pass a whole number below \<open>2 ^ 53\<close>.\<close>

lemma round_double_le:
  assumes "0 \<le> x" and "x \<le> of_int N" and "of_int N < (2::rat) ^ 53"
  shows "round_double x \<le> of_int N"
proof (cases "0 < x")
  case False
  with assms(1) have "x = 0" by simp
  with assms(2) show ?thesis by (simp add: round_double_def)
next
  case True
  let ?e = "binade x"
  let ?u = "(2::rat) powi (?e - 52)"
  have "(2::rat) powi ?e \<le> x" by (rule binade_bounds(1)[OF True])
  also have "x < 2 ^ 53" using assms(2,3) by simp
  also have "(2::rat) ^ 53 = 2 powi 53" by simp
  finally have "?e < 53" by (rule pow2_less_imp_less)
  then have k: "?e - 52 = - int (nat (52 - ?e))" by simp
  define k where "k = nat (52 - ?e)"
  note k = k[folded k_def]
  have u: "?u = 1 / 2 ^ k" by (simp add: k power_int_minus_divide)
  have "x / ?u = x * 2 ^ k" by (simp add: u)
  also have "\<dots> \<le> of_int N * 2 ^ k" using assms(2) by (simp add: mult_right_mono)
  also have "\<dots> = of_int (N * 2 ^ k)" by simp
  finally have "round_half_even (x / ?u) \<le> N * 2 ^ k" by (rule round_half_even_le)
  then have "(of_int (round_half_even (x / ?u)) :: rat) \<le> of_int (N * 2 ^ k)"
    by (simp only: of_int_le_iff)
  then have "?u * of_int (round_half_even (x / ?u)) \<le> of_int N"
    by (simp add: u field_simps)
  then show ?thesis by (simp add: round_double_pos[OF True])
qed

lemma round_half_even_of_int: "round_half_even (of_int M) = M"
  by (simp add: round_half_even_def)

lemma round_double_exact:
  assumes "0 < N" and "of_int N < (2::rat) ^ 53"
  shows "round_double (of_int N) = of_int N"
proof -
  let ?x = "of_int N :: rat"
  have pos: "0 < ?x" using assms(1) by simp
  let ?e = "binade ?x"
  let ?u = "(2::rat) powi (?e - 52)"
  have "(2::rat) powi ?e \<le> ?x" by (rule binade_bounds(1)[OF pos])
  also note assms(2)
  also have "(2::rat) ^ 53 = 2 powi 53" by simp
  finally have "?e < 53" by (rule pow2_less_imp_less)
  then have k: "?e - 52 = - int (nat (52 - ?e))" by simp
  define k where "k = nat (52 - ?e)"
  note k = k[folded k_def]
  have u: "?u = 1 / 2 ^ k" by (simp add: k power_int_minus_divide)
  have "?x / ?u = of_int (N * 2 ^ k)" by (simp add: u)
  then have "round_half_even (?x / ?u) = N * 2 ^ k"
    by (simp only: round_half_even_of_int)
  then have "?u * of_int (round_half_even (?x / ?u)) = ?x" by (simp add: u)
  then show ?thesis by (simp only: round_double_pos[OF pos])
qed

lemma round_double_error:
  assumes "0 \<le> x"
  shows "\<bar>round_double x - x\<bar> \<le> x / 2 ^ 53"
proof (cases "x = 0")
  case True
  then show ?thesis by (simp add: round_double_def)
next
  case False
  with assms have pos: "0 < x" by simp
  let ?u = "(2::rat) powi (binade x - 52)"
  have upos: "0 < ?u" by simp
  have "?u = 2 powi (binade x) / 2 ^ 52" by (simp add: power_int_diff)
  also have "\<dots> \<le> x / 2 ^ 52" using binade_bounds(1)[OF pos] by (simp add: divide_right_mono)
  finally have u: "?u \<le> x / 2 ^ 52" .
  have "round_double x - x = ?u * (of_int (round_half_even (x / ?u)) - x / ?u)"
    using upos by (simp add: round_double_pos[OF pos] right_diff_distrib)
  then have "\<bar>round_double x - x\<bar> = ?u * \<bar>of_int (round_half_even (x / ?u)) - x / ?u\<bar>"
    using upos by (simp add: abs_mult)
  also have "\<dots> \<le> ?u * (1 / 2)"
    using upos round_half_even_near[of "x / ?u"] by (intro mult_left_mono) simp_all
  also have "\<dots> \<le> (x / 2 ^ 52) * (1 / 2)" using u by simp
  also have "\<dots> = x / 2 ^ 53" by simp
  finally show ?thesis .
qed

lemma round_double_0: "round_double 0 = 0"
  by (simp add: round_double_def)

lemma round_double_1: "round_double 1 = 1"
  using round_double_exact[of 1] by simp

lemma round_double_100: "round_double 100 = 100"
  using round_double_exact[of 100] by simp

text \<open>
  The progress \<open>(p / n) * 100\<close> in doubles, for \<open>p\<close> of \<open>n\<close> items: it lies between
  \<open>0\<close> and \<open>100\<close>, it is within \<open>100 / 2 ^ 52\<close> of the exact value, and it is exact at
  both ends.
\<close>

lemma double_percent:
  fixes p n :: nat
  assumes le: "p \<le> n" and pos: "0 < n"
  shows "0 \<le> double_mul (double_div (of_nat p) (of_nat n)) 100"
    and "double_mul (double_div (of_nat p) (of_nat n)) 100 \<le> 100"
    and "\<bar>double_mul (double_div (of_nat p) (of_nat n)) 100 - 100 * of_nat p / of_nat n\<bar>
           \<le> 100 / 2 ^ 52"
proof -
  define x :: rat where "x = of_nat p / of_nat n"
  define q where "q = round_double x"
  define y where "y = q * 100"
  have "(of_nat p :: rat) \<le> of_nat n" using le by (simp only: of_nat_le_iff)
  then have x1: "x \<le> 1" using pos by (simp add: x_def divide_le_eq)
  have x0: "0 \<le> x" by (simp add: x_def)
  have q0: "0 \<le> q" unfolding q_def using x0 by (rule round_double_nonneg)
  have "round_double x \<le> of_int 1" using x0 by (rule round_double_le) (use x1 in simp_all)
  then have q1: "q \<le> 1" by (simp add: q_def)
  have y0: "0 \<le> y" using q0 by (simp add: y_def)
  have y1: "y \<le> 100" using q1 by (simp add: y_def)
  have r: "double_mul (double_div (of_nat p) (of_nat n)) 100 = round_double y"
    by (simp add: double_mul_def double_div_def y_def q_def x_def)
  show "0 \<le> double_mul (double_div (of_nat p) (of_nat n)) 100"
    unfolding r using y0 by (rule round_double_nonneg)
  have "round_double y \<le> of_int 100" using y0 by (rule round_double_le) (use y1 in simp_all)
  then show "double_mul (double_div (of_nat p) (of_nat n)) 100 \<le> 100"
    by (simp add: r)
  have e1: "\<bar>round_double y - y\<bar> \<le> y / 2 ^ 53" using y0 by (rule round_double_error)
  have e2: "\<bar>q - x\<bar> \<le> x / 2 ^ 53" unfolding q_def using x0 by (rule round_double_error)
  have "round_double y - 100 * x = (round_double y - y) + 100 * (q - x)"
    by (simp add: y_def)
  also have "\<bar>\<dots>\<bar> \<le> \<bar>round_double y - y\<bar> + \<bar>100 * (q - x)\<bar>"
    by (rule abs_triangle_ineq)
  also have "\<bar>100 * (q - x)\<bar> = 100 * \<bar>q - x\<bar>"
    by (simp only: abs_mult abs_numeral)
  finally have "\<bar>round_double y - 100 * x\<bar> \<le> \<bar>round_double y - y\<bar> + 100 * \<bar>q - x\<bar>" .
  also have "\<dots> \<le> y / 2 ^ 53 + 100 * (x / 2 ^ 53)" using e1 e2 by simp
  also have "\<dots> \<le> 100 / 2 ^ 53 + 100 * (1 / 2 ^ 53)" using y1 x1 by simp
  also have "\<dots> = 100 / 2 ^ 52" by simp
  finally show "\<bar>double_mul (double_div (of_nat p) (of_nat n)) 100 - 100 * of_nat p / of_nat n\<bar>
           \<le> 100 / 2 ^ 52"
    by (simp add: r x_def)
qed

lemma double_percent_none: "double_mul (double_div 0 b) 100 = 0"
  by (simp add: double_mul_def double_div_def round_double_0)

lemma double_percent_all:
  assumes "0 < (n::nat)"
  shows "double_mul (double_div (of_nat n) (of_nat n)) 100 = 100"
  using assms by (simp add: double_mul_def double_div_def round_double_1 round_double_100)

lemma double_percent_1_of_3:
  "double_mul (double_div 1 3) 100 = 2345624805922133 / 70368744177664"
proof -
  have b: "binade (1 / 3) = - 2" by (rule binade_eqI) simp_all
  have f: "\<lfloor>18014398509481984 / 3 :: rat\<rfloor> = 6004799503160661"
    by (rule floor_unique) simp_all
  have q: "round_double (1 / 3) = 6004799503160661 / 18014398509481984"
    by (simp add: round_double_def b Let_def round_half_even_def power_int_minus_divide f)
  have b': "binade (150119987579016525 / 4503599627370496) = 5" by (rule binade_eqI) simp_all
  have f': "\<lfloor>150119987579016525 / 32 :: rat\<rfloor> = 4691249611844266"
    by (rule floor_unique) simp_all
  have "round_double (150119987579016525 / 4503599627370496) = 2345624805922133 / 70368744177664"
    by (simp add: round_double_def b' Let_def round_half_even_def power_int_minus_divide f')
  then show ?thesis by (simp add: double_mul_def double_div_def q)
qed

lemma double_percent_2_of_3:
  "double_mul (double_div 2 3) 100 = 2345624805922133 / 35184372088832"
proof -
  have b: "binade (2 / 3) = - 1" by (rule binade_eqI) simp_all
  have f: "\<lfloor>18014398509481984 / 3 :: rat\<rfloor> = 6004799503160661"
    by (rule floor_unique) simp_all
  have q: "round_double (2 / 3) = 6004799503160661 / 9007199254740992"
    by (simp add: round_double_def b Let_def round_half_even_def power_int_minus_divide f)
  have b': "binade (150119987579016525 / 2251799813685248) = 6" by (rule binade_eqI) simp_all
  have f': "\<lfloor>150119987579016525 / 32 :: rat\<rfloor> = 4691249611844266"
    by (rule floor_unique) simp_all
  have "round_double (150119987579016525 / 2251799813685248) = 2345624805922133 / 35184372088832"
    by (simp add: round_double_def b' Let_def round_half_even_def power_int_minus_divide f')
  then show ?thesis by (simp add: double_mul_def double_div_def q)
qed

lemma double_percent_3_of_3: "double_mul (double_div 3 3) 100 = 100"
  by (simp add: double_mul_def double_div_def round_double_1 round_double_100)

text \<open>The nearest double to \<open>100 / 3\<close> is another one.\<close>

lemma round_double_100_3: "round_double (100 / 3) = 4691249611844267 / 140737488355328"
proof -
  have b: "binade (100 / 3) = 5" by (rule binade_eqI) simp_all
  have f: "\<lfloor>14073748835532800 / 3 :: rat\<rfloor> = 4691249611844266"
    by (rule floor_unique) simp_all
  show ?thesis
    by (simp add: round_double_def b Let_def round_half_even_def power_int_minus_divide f)
qed

section \<open>The Job as it can be observed\<close>

lemma tracked_facts:
  assumes t: "tracked n j"
  shows "0 \<le> progress_percentage j" and "progress_percentage j \<le> 100"
    and "urls_processed j = 0 \<Longrightarrow> progress_percentage j = 0"
    and "0 < urls_processed j \<Longrightarrow>
           progress_percentage j
             = double_mul (double_div (of_nat (urls_processed j)) (of_nat n)) 100"
    and "0 < urls_processed j \<Longrightarrow>
           \<bar>progress_percentage j - 100 * of_nat (urls_processed j) / of_nat n\<bar> \<le> 100 / 2 ^ 52"
    and "0 < n \<Longrightarrow> urls_processed j = n \<Longrightarrow> progress_percentage j = 100"
proof -
  from t have le: "urls_processed j \<le> n"
    and pr: "progress_percentage j =
          (if urls_processed j = 0 then 0
           else double_mul (double_div (of_nat (urls_processed j)) (of_nat n)) 100)"
    by (simp_all add: tracked_def)
  show z: "urls_processed j = 0 \<Longrightarrow> progress_percentage j = 0" by (simp add: pr)
  show d: "0 < urls_processed j \<Longrightarrow>
           progress_percentage j
             = double_mul (double_div (of_nat (urls_processed j)) (of_nat n)) 100"
    by (simp add: pr)
  have pos: "0 < n" if "0 < urls_processed j" using that le by simp
  show "0 \<le> progress_percentage j"
  proof (cases "urls_processed j = 0")
    case True
    then show ?thesis by (simp add: z)
  next
    case False
    then have p: "0 < urls_processed j" by simp
    show ?thesis unfolding d[OF p] by (rule double_percent(1)[OF le pos[OF p]])
  qed
  show "progress_percentage j \<le> 100"
  proof (cases "urls_processed j = 0")
    case True
    then show ?thesis by (simp add: z)
  next
    case False
    then have p: "0 < urls_processed j" by simp
    show ?thesis unfolding d[OF p] by (rule double_percent(2)[OF le pos[OF p]])
  qed
  show "\<bar>progress_percentage j - 100 * of_nat (urls_processed j) / of_nat n\<bar> \<le> 100 / 2 ^ 52"
    if p: "0 < urls_processed j"
    unfolding d[OF p] by (rule double_percent(3)[OF le pos[OF p]])
  show "progress_percentage j = 100" if "0 < n" "urls_processed j = n"
    using that by (simp add: pr double_percent_all)
qed

lemma tracked_progress:
  assumes "s + f \<le> n"
  shows "tracked n (merge_update
           (Progressed (s + f) f (double_mul (double_div (of_nat (s + f)) (of_nat n)) 100) s) j)"
  using assms by (auto simp: tracked_def double_percent_none)

lemma tracked_finished: "tracked n j \<Longrightarrow> tracked n (merge_update (Finished t) j)"
  by (simp add: tracked_def)

lemma tracked_started: "tracked n j \<Longrightarrow> tracked n (merge_update (Started m t) j)"
  by (simp add: tracked_def)

lemma tracked_new_job: "tracked n new_job"
  by (simp add: tracked_def new_job_def)

lemma merge_update_total:
  "total_urls (merge_update (Progressed p f pr s) j) = total_urls j"
  "total_urls (merge_update (Finished t) j) = total_urls j"
  "total_urls (merge_update (Started m t) j) = m"
  by simp_all

lemma record_result_job:
  "\<exists>j'. job (world_of (record_result l e d cb n r st)) = j'
      \<and> job_log (world_of (record_result l e d cb n r st))
          = job_log (world_of st) @ [(Progressed
              (successCount (record_result l e d cb n r st) + failedCount (record_result l e d cb n r st))
              (failedCount (record_result l e d cb n r st))
              (double_mul (double_div
                 (of_nat (successCount (record_result l e d cb n r st)
                          + failedCount (record_result l e d cb n r st)))
                 (of_nat n)) 100)
              (successCount (record_result l e d cb n r st)), j')]
      \<and> (j' = job (world_of st) \<or> j' = merge_update (Progressed
              (successCount (record_result l e d cb n r st) + failedCount (record_result l e d cb n r st))
              (failedCount (record_result l e d cb n r st))
              (double_mul (double_div
                 (of_nat (successCount (record_result l e d cb n r st)
                          + failedCount (record_result l e d cb n r st)))
                 (of_nat n)) 100)
              (successCount (record_result l e d cb n r st))) (job (world_of st)))"
  by (simp add: record_result_def Let_def updateJob_def saveContent_keeps)

text \<open>
  What a run keeps: every row that the run leaves in \<open>job_log\<close>, and the row at the end,
  is \<open>tracked\<close> and has the total that the row had when the loop began.
\<close>

lemma run_tracked:
  assumes k: "0 < concurrency c"
    and j0: "tracked (length entries) (job (world_of st0))" "total_urls (job (world_of st0)) = T"
    and l0: "\<forall>(u, j) \<in> set (job_log (world_of st0)). tracked (length entries) j \<and> total_urls j = T"
    and c0: "successCount st0 = 0" "failedCount st0 = 0"
  shows "\<exists>st'. batch_loop l c e docSlug onProgress entries 0 st0 = Some st'
      \<and> tracked (length entries) (job (world_of st')) \<and> total_urls (job (world_of st')) = T
      \<and> (\<forall>(u, j) \<in> set (job_log (world_of st')). tracked (length entries) j \<and> total_urls j = T)"
proof -
  let ?n = "length entries"
  let ?J = "\<lambda>es st. successCount st + failedCount st = length es
      \<and> tracked ?n (job (world_of st)) \<and> total_urls (job (world_of st)) = T
      \<and> (\<forall>(u, j) \<in> set (job_log (world_of st)). tracked ?n j \<and> total_urls j = T)"
  have item: "?J (es @ [x]) (record_result l e docSlug onProgress ?n (scrapePage l e docSlug x) st)"
    if ent: "entries = es @ x # rest" and J: "?J es st" for es x rest st
  proof -
    let ?st = "record_result l e docSlug onProgress ?n (scrapePage l e docSlug x) st"
    let ?pr = "double_mul (double_div (of_nat (successCount ?st + failedCount ?st)) (of_nat ?n)) 100"
    have cnt: "successCount ?st + failedCount ?st = length es + 1"
      using J by (simp add: successCount_record_result failedCount_record_result)
    have le: "successCount ?st + failedCount ?st \<le> ?n"
      unfolding cnt by (simp add: ent)
    from record_result_job[of l e docSlug onProgress ?n "scrapePage l e docSlug x" st]
    obtain j' where j': "job (world_of ?st) = j'"
      and lg: "job_log (world_of ?st) = job_log (world_of st) @ [(Progressed
              (successCount ?st + failedCount ?st) (failedCount ?st) ?pr (successCount ?st), j')]"
      and alt: "j' = job (world_of st) \<or> j' = merge_update (Progressed
              (successCount ?st + failedCount ?st) (failedCount ?st) ?pr (successCount ?st))
              (job (world_of st))"
      by blast
    have "tracked ?n j' \<and> total_urls j' = T"
      using alt J tracked_progress[OF le, of "job (world_of st)"]
      by (auto simp only: merge_update_total)
    then show ?thesis using J cnt by (simp add: j' lg)
  qed
  have "\<exists>st'. batch_loop l c e docSlug onProgress entries 0 st0 = Some st' \<and> ?J entries st'"
    by (rule run_invariant[where J = ?J, OF k]) (use j0 l0 c0 item in \<open>simp_all add: delay_def\<close>)
  then show ?thesis by blast
qed

lemma demo_concurrency: "concurrency demo_config = 2"
  by (simp add: demo_config_def new_scraper_def or_default_def)

lemma default_concurrency: "concurrency default_config = 3"
  by (simp add: default_config_def new_scraper_def or_default_def)

lemma demo_env_facts:
  "get_index demo_env (index_url ''react'') = Inr (Some demo_entries)"
  "content_store_up demo_env n"
  "job_store_up demo_env n"
  "source_row demo_env = Some ''source-1''"
  "success (scrapePage demo_lib demo_env ''react'' intro_entry)"
  "\<not> success (scrapePage demo_lib demo_env ''react'' hooks_entry)"
  "success (scrapePage demo_lib demo_env ''react'' api_entry)"
  by (simp_all add: demo_env_def index_url_def scrapePage_def page_url_def DEVDOCS_BASE_def
        intro_entry_def hooks_entry_def api_entry_def extract_page_fields)

lemma lost_total_env_facts:
  "get_index lost_total_env u = Inr (Some [intro_entry])"
  "job_store_up lost_total_env n = (0 < n)"
  "success (scrapePage demo_lib lost_total_env ''react'' intro_entry)"
  by (simp_all add: lost_total_env_def single_env_def demo_env_def scrapePage_def page_url_def
        DEVDOCS_BASE_def intro_entry_def extract_page_fields)

text \<open>
  Claim C1, as the spec has it: once the total is set the progress of an observed Job
  equals \<open>100 * processed / total\<close>, and the progress is \<open>0\<close> until the total is set.

  A run of the scraper as the constructor builds it over the site of three pages, with
  both stores up, leaves five rows of the Job, given here by total, processed and
  progress. After the first page the row has the total \<open>3\<close>, and its progress is the
  double \<open>33.33333333333333\<close> that \<open>(1 / 3) * 100\<close> gives: this is not \<open>100 * 1 / 3\<close>,
  and it is not the double nearest to that either.

  On the site of one page, when the first call to the job store throws, the total is
  never set, and the run ends with a row that is \<open>completed\<close> with the total \<open>0\<close>, one
  item processed and the progress \<open>100\<close>.
\<close>

theorem job_progress_counterexample:
  "map (\<lambda>(u, j). (total_urls j, urls_processed j, progress_percentage j))
       (job_log (snd (the (scrapeDoc demo_lib default_config demo_env ''react'' False fresh_world))))
     = [(3, 0, 0),
        (3, 1, 2345624805922133 / 70368744177664),
        (3, 2, 2345624805922133 / 35184372088832),
        (3, 3, 100),
        (3, 3, 100)]
   \<and> (2345624805922133 / 70368744177664 :: rat) \<noteq> 100 * 1 / 3
   \<and> (2345624805922133 / 70368744177664 :: rat) \<noteq> round_double (100 * 1 / 3)
   \<and> status (job (snd (the (scrapeDoc demo_lib demo_config lost_total_env ''react'' False fresh_world))))
        = Completed
   \<and> total_urls (job (snd (the (scrapeDoc demo_lib demo_config lost_total_env ''react'' False fresh_world))))
        = 0
   \<and> urls_processed (job (snd (the (scrapeDoc demo_lib demo_config lost_total_env ''react'' False fresh_world))))
        = 1
   \<and> progress_percentage (job (snd (the (scrapeDoc demo_lib demo_config lost_total_env ''react'' False fresh_world))))
        = 100"
proof -
  have n: "length demo_entries = 3" "demo_entries \<noteq> []" by (simp_all add: demo_entries_def)
  have loop: "batch_loop demo_lib default_config demo_env ''react'' False demo_entries 0 st
      = Some (run_batch demo_lib default_config demo_env ''react'' False demo_entries 0 st)" for st
    by (rule batch_loop_single) (simp_all add: default_concurrency n)
  have a: "map (\<lambda>(u, j). (total_urls j, urls_processed j, progress_percentage j))
       (job_log (snd (the (scrapeDoc demo_lib default_config demo_env ''react'' False fresh_world))))
     = [(3, 0, 0),
        (3, 1, 2345624805922133 / 70368744177664),
        (3, 2, 2345624805922133 / 35184372088832),
        (3, 3, 100),
        (3, 3, 100)]"
    by (simp add: scrapeDoc_def getDocEntries_def demo_env_facts loop n run_batch_def slice_def
          default_concurrency)
       (simp add: demo_entries_def record_result_def Let_def updateJob_def saveContent_keeps
          demo_env_facts fresh_world_def new_job_def
          double_percent_1_of_3 double_percent_2_of_3 double_percent_3_of_3)
  have b: "(2345624805922133 / 70368744177664 :: rat) \<noteq> 100 * 1 / 3"
    "(2345624805922133 / 70368744177664 :: rat) \<noteq> round_double (100 * 1 / 3)"
    by (simp_all add: round_double_100_3)
  note loop1 = batch_loop_single[of demo_config "[intro_entry]", unfolded demo_concurrency, simplified]
  have c: "status (job (snd (the (scrapeDoc demo_lib demo_config lost_total_env ''react'' False fresh_world))))
        = Completed
   \<and> total_urls (job (snd (the (scrapeDoc demo_lib demo_config lost_total_env ''react'' False fresh_world))))
        = 0
   \<and> urls_processed (job (snd (the (scrapeDoc demo_lib demo_config lost_total_env ''react'' False fresh_world))))
        = 1
   \<and> progress_percentage (job (snd (the (scrapeDoc demo_lib demo_config lost_total_env ''react'' False fresh_world))))
        = 100"
    by (simp add: scrapeDoc_def getDocEntries_def lost_total_env_facts loop1 run_batch_def slice_def
          demo_concurrency record_result_def Let_def updateJob_def saveContent_keeps
          fresh_world_def new_job_def double_mul_def double_div_def round_double_1 round_double_100)
  from a b c show ?thesis by blast
qed

text \<open>
  Claim C1, amended. A run with a positive concurrency on a new Job ends, and every
  state of the Job that can be observed is the new Job or the row after one of the calls
  of \<open>updateJob\<close> (\<open>job_log\<close>), whether or not the call went through. In each of them
  \<open>urls_processed = items_scraped + urls_failed\<close>, the progress lies between 0 and 100,
  and it is 0 as long as no item is processed. With \<open>n\<close> the number of entries of the
  index, processed is at most \<open>n\<close>; when it is positive the progress is the double that
  \<open>(processed / n) * 100\<close> gives, which is within \<open>100 / 2 ^ 52\<close> of
  \<open>100 * processed / n\<close>, and it is 100 when all \<open>n\<close> items are processed. The
  \<open>total_urls\<close> of every row written by the run is \<open>n\<close> when the first call of the job
  store, the one that sets the total, went through, and stays 0 when it did not.
\<close>

theorem job_accounting_invariant:
  assumes k: "0 < concurrency c"
    and fresh: "job w = new_job" "job_log w = []"
  shows "\<exists>r w'. scrapeDoc l c e docSlug onProgress w = Some (r, w')
     \<and> (\<forall>j \<in> set (new_job # map snd (job_log w')).
            urls_processed j = items_scraped j + urls_failed j
          \<and> 0 \<le> progress_percentage j \<and> progress_percentage j \<le> 100
          \<and> (urls_processed j = 0 \<longrightarrow> progress_percentage j = 0))
     \<and> (\<forall>entries. get_index e (index_url docSlug) = Inr (Some entries) \<longrightarrow>
          job w' \<in> set (map snd (job_log w'))
          \<and> (\<forall>j \<in> set (new_job # map snd (job_log w')).
                urls_processed j \<le> length entries
              \<and> (0 < urls_processed j \<longrightarrow>
                   progress_percentage j
                     = double_mul (double_div (of_nat (urls_processed j))
                                              (of_nat (length entries))) 100
                 \<and> \<bar>progress_percentage j
                      - 100 * of_nat (urls_processed j) / of_nat (length entries)\<bar>
                     \<le> 100 / 2 ^ 52)
              \<and> (entries \<noteq> [] \<and> urls_processed j = length entries
                   \<longrightarrow> progress_percentage j = 100))
          \<and> (\<forall>j \<in> set (map snd (job_log w')).
                total_urls j = (if job_store_up e (job_calls w) then length entries else 0)))"
proof (cases "get_index e (index_url docSlug)")
  case (Inl err)
  then have "scrapeDoc l c e docSlug onProgress w = Some (Inl err, w)"
    by (simp add: scrapeDoc_def getDocEntries_def)
  then show ?thesis using Inl fresh by (simp add: new_job_def)
next
  case (Inr found)
  show ?thesis
  proof (cases found)
    case None
    with Inr have "scrapeDoc l c e docSlug onProgress w = Some (Inl (JsError ''TypeError''), w)"
      by (simp add: scrapeDoc_def getDocEntries_def)
    then show ?thesis using Inr None fresh by (simp add: new_job_def)
  next
    case (Some entries)
    let ?n = "length entries"
    let ?T = "if job_store_up e (job_calls w) then ?n else 0"
    let ?w1 = "updateJob e (Started ?n (now w)) w"
    let ?st0 = "\<lparr> world_of = ?w1, successCount = 0, failedCount = 0 \<rparr>"
    have idx: "get_index e (index_url docSlug) = Inr (Some entries)" using Inr Some by simp
    from scrapeDoc_returns[OF idx k] obtain st where
      loop: "batch_loop l c e docSlug onProgress entries 0 ?st0 = Some st"
      and run: "scrapeDoc l c e docSlug onProgress w
              = Some (Inr \<lparr> c_success = successCount st, c_failed = failedCount st,
                             c_total = ?n \<rparr>,
                      updateJob e (Finished (now (world_of st))) (world_of st))"
      by blast
    let ?w' = "updateJob e (Finished (now (world_of st))) (world_of st)"
    have j1: "tracked ?n (job ?w1)"
      using tracked_new_job tracked_started[OF tracked_new_job]
      by (simp add: updateJob_job fresh del: merge_update.simps)
    have t1: "total_urls (job ?w1) = ?T"
      by (simp add: updateJob_job fresh new_job_def)
    have l1: "\<forall>(u, j) \<in> set (job_log (world_of ?st0)). tracked ?n j \<and> total_urls j = ?T"
      using j1 t1 fresh by (simp add: updateJob_fields)
    from run_tracked[OF k, of entries ?st0 ?T l e docSlug onProgress] j1 t1 l1 loop
    have js: "tracked ?n (job (world_of st))" "total_urls (job (world_of st)) = ?T"
      and ls: "\<forall>(u, j) \<in> set (job_log (world_of st)). tracked ?n j \<and> total_urls j = ?T"
      by auto
    have jf: "tracked ?n (job ?w')"
      using js(1) by (simp add: updateJob_job tracked_finished del: merge_update.simps)
    have tf: "total_urls (job ?w') = ?T"
      using js(2) by (simp add: updateJob_job)
    have lf: "\<forall>j \<in> set (map snd (job_log ?w')). tracked ?n j \<and> total_urls j = ?T"
      using ls jf tf by (auto simp: updateJob_fields)
    have all: "\<forall>j \<in> set (new_job # map snd (job_log ?w')). tracked ?n j"
      using lf tracked_new_job by simp
    have mem: "job ?w' \<in> set (map snd (job_log ?w'))"
      by (simp add: updateJob_fields)
    have a: "\<forall>j \<in> set (new_job # map snd (job_log ?w')).
            urls_processed j = items_scraped j + urls_failed j
          \<and> 0 \<le> progress_percentage j \<and> progress_percentage j \<le> 100
          \<and> (urls_processed j = 0 \<longrightarrow> progress_percentage j = 0)"
    proof
      fix j assume "j \<in> set (new_job # map snd (job_log ?w'))"
      with all have t: "tracked ?n j" by blast
      from t have "urls_processed j = items_scraped j + urls_failed j" by (simp add: tracked_def)
      with tracked_facts(1,2,3)[OF t]
      show "urls_processed j = items_scraped j + urls_failed j
          \<and> 0 \<le> progress_percentage j \<and> progress_percentage j \<le> 100
          \<and> (urls_processed j = 0 \<longrightarrow> progress_percentage j = 0)"
        by blast
    qed
    have b: "\<forall>j \<in> set (new_job # map snd (job_log ?w')).
                urls_processed j \<le> ?n
              \<and> (0 < urls_processed j \<longrightarrow>
                   progress_percentage j
                     = double_mul (double_div (of_nat (urls_processed j)) (of_nat ?n)) 100
                 \<and> \<bar>progress_percentage j - 100 * of_nat (urls_processed j) / of_nat ?n\<bar>
                     \<le> 100 / 2 ^ 52)
              \<and> (entries \<noteq> [] \<and> urls_processed j = ?n \<longrightarrow> progress_percentage j = 100)"
    proof
      fix j assume "j \<in> set (new_job # map snd (job_log ?w'))"
      with all have t: "tracked ?n j" by blast
      from t have "urls_processed j \<le> ?n" by (simp add: tracked_def)
      with tracked_facts(4,5,6)[OF t]
      show "urls_processed j \<le> ?n
              \<and> (0 < urls_processed j \<longrightarrow>
                   progress_percentage j
                     = double_mul (double_div (of_nat (urls_processed j)) (of_nat ?n)) 100
                 \<and> \<bar>progress_percentage j - 100 * of_nat (urls_processed j) / of_nat ?n\<bar>
                     \<le> 100 / 2 ^ 52)
              \<and> (entries \<noteq> [] \<and> urls_processed j = ?n \<longrightarrow> progress_percentage j = 100)"
        by simp
    qed
    have c: "\<forall>j \<in> set (map snd (job_log ?w')). total_urls j = ?T"
      using lf by blast
    have d: "\<forall>es. get_index e (index_url docSlug) = Inr (Some es) \<longrightarrow>
          job ?w' \<in> set (map snd (job_log ?w'))
          \<and> (\<forall>j \<in> set (new_job # map snd (job_log ?w')).
                urls_processed j \<le> length es
              \<and> (0 < urls_processed j \<longrightarrow>
                   progress_percentage j
                     = double_mul (double_div (of_nat (urls_processed j)) (of_nat (length es))) 100
                 \<and> \<bar>progress_percentage j - 100 * of_nat (urls_processed j) / of_nat (length es)\<bar>
                     \<le> 100 / 2 ^ 52)
              \<and> (es \<noteq> [] \<and> urls_processed j = length es \<longrightarrow> progress_percentage j = 100))
          \<and> (\<forall>j \<in> set (map snd (job_log ?w')).
                total_urls j = (if job_store_up e (job_calls w) then length es else 0))"
    proof (intro allI impI)
      fix es assume "get_index e (index_url docSlug) = Inr (Some es)"
      with idx have es: "es = entries" by simp
      show "job ?w' \<in> set (map snd (job_log ?w'))
          \<and> (\<forall>j \<in> set (new_job # map snd (job_log ?w')).
                urls_processed j \<le> length es
              \<and> (0 < urls_processed j \<longrightarrow>
                   progress_percentage j
                     = double_mul (double_div (of_nat (urls_processed j)) (of_nat (length es))) 100
                 \<and> \<bar>progress_percentage j - 100 * of_nat (urls_processed j) / of_nat (length es)\<bar>
                     \<le> 100 / 2 ^ 52)
              \<and> (es \<noteq> [] \<and> urls_processed j = length es \<longrightarrow> progress_percentage j = 100))
          \<and> (\<forall>j \<in> set (map snd (job_log ?w')).
                total_urls j = (if job_store_up e (job_calls w) then length es else 0))"
        unfolding es using mem b c by blast
    qed
    from run a d show ?thesis by blast
  qed
qed

theorem job_accounting_invariant_witness:
  "\<exists>r w'. scrapeDoc demo_lib demo_config demo_env ''react'' False fresh_world = Some (r, w')
     \<and> urls_processed (job w') = items_scraped (job w') + urls_failed (job w')
     \<and> 0 \<le> progress_percentage (job w') \<and> progress_percentage (job w') \<le> 100
     \<and> urls_processed (job w') \<le> 3
     \<and> total_urls (job w') = 3"
proof -
  have idx: "get_index demo_env (index_url ''react'') = Inr (Some demo_entries)"
    by (simp add: demo_env_def index_url_def DEVDOCS_BASE_def)
  have k: "0 < concurrency demo_config"
    by (simp add: demo_config_def new_scraper_def or_default_def)
  have f: "job fresh_world = new_job" "job_log fresh_world = []"
    by (simp_all add: fresh_world_def)
  have up: "job_store_up demo_env (job_calls fresh_world)"
    by (simp add: demo_env_def)
  have n: "length demo_entries = 3" by (simp add: demo_entries_def)
  from job_accounting_invariant[OF k f, of demo_lib demo_env "''react''" False]
  obtain r w' where
    run: "scrapeDoc demo_lib demo_config demo_env ''react'' False fresh_world = Some (r, w')"
    and a: "\<forall>j \<in> set (new_job # map snd (job_log w')).
            urls_processed j = items_scraped j + urls_failed j
          \<and> 0 \<le> progress_percentage j \<and> progress_percentage j \<le> 100
          \<and> (urls_processed j = 0 \<longrightarrow> progress_percentage j = 0)"
    and d: "\<forall>entries. get_index demo_env (index_url ''react'') = Inr (Some entries) \<longrightarrow>
          job w' \<in> set (map snd (job_log w'))
          \<and> (\<forall>j \<in> set (new_job # map snd (job_log w')).
                urls_processed j \<le> length entries
              \<and> (0 < urls_processed j \<longrightarrow>
                   progress_percentage j
                     = double_mul (double_div (of_nat (urls_processed j))
                                              (of_nat (length entries))) 100
                 \<and> \<bar>progress_percentage j
                      - 100 * of_nat (urls_processed j) / of_nat (length entries)\<bar>
                     \<le> 100 / 2 ^ 52)
              \<and> (entries \<noteq> [] \<and> urls_processed j = length entries
                   \<longrightarrow> progress_percentage j = 100))
          \<and> (\<forall>j \<in> set (map snd (job_log w')).
                total_urls j = (if job_store_up demo_env (job_calls fresh_world)
                                then length entries else 0))"
    by blast
  from d idx have mem: "job w' \<in> set (map snd (job_log w'))"
    and b: "\<forall>j \<in> set (new_job # map snd (job_log w')). urls_processed j \<le> length demo_entries"
    and c: "\<forall>j \<in> set (map snd (job_log w')).
                total_urls j = (if job_store_up demo_env (job_calls fresh_world)
                                then length demo_entries else 0)"
    by blast+
  from a mem have "urls_processed (job w') = items_scraped (job w') + urls_failed (job w')
     \<and> 0 \<le> progress_percentage (job w') \<and> progress_percentage (job w') \<le> 100"
    by auto
  moreover from b mem n have "urls_processed (job w') \<le> 3" by auto
  moreover from c mem up n have "total_urls (job w') = 3" by auto
  ultimately show ?thesis using run by blast
qed

section \<open>A second run over unchanged pages\<close>

lemma saveContent_unresolved:
  assumes "resolved_source e w = None"
  shows "rows (saveContent l e r d w) = rows w"
    and "next_id (saveContent l e r d w) = next_id w"
    and "resolved_source e (saveContent l e r d w) = None"
  using assms
  by (auto simp: saveContent_def Let_def resolved_source_def split: option.splits if_splits)

lemma updateJob_resolved: "resolved_source e (updateJob e' u w) = resolved_source e w"
  by (simp add: resolved_source_def updateJob_fields)

lemma spec_decide_Unchanged:
  "spec_decide t u fp = Unchanged \<longleftrightarrow> (\<exists>row. t u = Some row \<and> content_hash row = fp)"
  by (auto simp: spec_decide_def split: option.splits)

lemma saveContent_stores:
  assumes src: "resolved_source e w = Some sid"
    and up: "\<forall>n. content_store_up e n"
  shows "spec_decide (rows (saveContent l e r d w)) (url r) (contentHash l r) = Unchanged"
    and "u \<noteq> url r \<Longrightarrow> rows (saveContent l e r d w) u = rows w u"
    and "resolved_source e (saveContent l e r d w) = Some sid"
proof -
  have up3: "\<forall>n. db_calls w \<le> n \<and> n < db_calls w + 3 \<longrightarrow> content_store_up e n"
    using up by simp
  note sc = saveContent_resolved[OF src up3, of l r d]
  show "spec_decide (rows (saveContent l e r d w)) (url r) (contentHash l r) = Unchanged"
  proof (cases "spec_decide (rows w) (url r) (contentHash l r)")
    case New
    show ?thesis unfolding sc(1) New by (simp add: spec_decide_def contentData_def)
  next
    case Changed
    show ?thesis unfolding sc(1) Changed by (simp add: spec_decide_def contentData_def)
  next
    case Unchanged
    show ?thesis unfolding sc(1) Unchanged by (simp add: Unchanged)
  qed
  show "rows (saveContent l e r d w) u = rows w u" if "u \<noteq> url r"
  proof (cases "spec_decide (rows w) (url r) (contentHash l r)")
    case New
    show ?thesis unfolding sc(1) New using that by simp
  next
    case Changed
    show ?thesis unfolding sc(1) Changed using that by simp
  next
    case Unchanged
    show ?thesis unfolding sc(1) Unchanged by simp
  qed
  show "resolved_source e (saveContent l e r d w) = Some sid"
    using sc(4) by (simp add: resolved_source_def)
qed

lemma saveContent_unchanged:
  assumes src: "resolved_source e w = Some sid"
    and up: "\<forall>n. content_store_up e n"
    and same: "spec_decide (rows w) (url r) (contentHash l r) = Unchanged"
  shows "rows (saveContent l e r d w) = rows w"
    and "next_id (saveContent l e r d w) = next_id w"
    and "resolved_source e (saveContent l e r d w) = Some sid"
proof -
  have up3: "\<forall>n. db_calls w \<le> n \<and> n < db_calls w + 3 \<longrightarrow> content_store_up e n"
    using up by simp
  note sc = saveContent_resolved[OF src up3, of l r d]
  show "rows (saveContent l e r d w) = rows w" unfolding sc(1) same by simp
  show "next_id (saveContent l e r d w) = next_id w" unfolding sc(2) same by simp
  show "resolved_source e (saveContent l e r d w) = Some sid"
    using sc(4) by (simp add: resolved_source_def)
qed

lemma record_result_world:
  "rows (world_of (record_result l e d cb n r st))
     = (if success r then rows (saveContent l e r d (world_of st)) else rows (world_of st))"
  "next_id (world_of (record_result l e d cb n r st))
     = (if success r then next_id (saveContent l e r d (world_of st)) else next_id (world_of st))"
  "resolved_source e (world_of (record_result l e d cb n r st))
     = (if success r then resolved_source e (saveContent l e r d (world_of st))
        else resolved_source e (world_of st))"
  by (simp_all add: record_result_def Let_def updateJob_fields resolved_source_def)

lemma scrapePage_failed:
  assumes "get_page e (page_url d x) = Inl err"
  shows "\<not> success (scrapePage l e d x)"
  using assms by (simp add: scrapePage_def)

text \<open>The first run: every fetched page ends up stored under its fingerprint.\<close>

lemma first_run_stores:
  assumes k: "0 < concurrency c"
    and up: "\<forall>n. content_store_up e n"
  shows "\<exists>st'. batch_loop l c e docSlug onProgress entries 0 st0 = Some st'
      \<and> resolved_source e (world_of st') = resolved_source e (world_of st0)
      \<and> (resolved_source e (world_of st0) \<noteq> None \<longrightarrow> stored_pages l e docSlug entries (world_of st'))"
proof -
  let ?J = "\<lambda>es st. resolved_source e (world_of st) = resolved_source e (world_of st0)
      \<and> (resolved_source e (world_of st0) \<noteq> None \<longrightarrow> stored_pages l e docSlug es (world_of st))"
  have item: "?J (es @ [x]) (record_result l e docSlug onProgress (length entries)
                               (scrapePage l e docSlug x) st)"
    if J: "?J es st" for es x st
  proof (cases "get_page e (page_url docSlug x)")
    case (Inl err)
    then show ?thesis
      using J by (auto simp: record_result_world scrapePage_failed[OF Inl] stored_pages_def)
  next
    case (Inr html)
    let ?r = "scrapePage l e docSlug x"
    have r: "?r = extract_page l docSlug x html" by (rule scrapePage_fetched[OF Inr])
    have f: "success ?r" "url ?r = page_url docSlug x"
      "contentHash l ?r = sha256_hex l (page_content l html)"
      by (simp_all add: r extract_page_fields contentHash_def)
    show ?thesis
    proof (cases "resolved_source e (world_of st0)")
      case None
      with J have "resolved_source e (world_of st) = None" by simp
      from saveContent_unresolved(3)[OF this] None show ?thesis
        by (simp add: record_result_world f)
    next
      case (Some sid)
      with J have src: "resolved_source e (world_of st) = Some sid"
        and old: "stored_pages l e docSlug es (world_of st)" by simp_all
      note sv = saveContent_stores[OF src up, where l = l and r = ?r and d = docSlug, unfolded f]
      let ?w = "saveContent l e ?r docSlug (world_of st)"
      have "spec_decide (rows ?w) (page_url docSlug y) (sha256_hex l (page_content l h)) = Unchanged"
        if y: "y \<in> set (es @ [x])" and h: "get_page e (page_url docSlug y) = Inr h" for y h
      proof (cases "page_url docSlug y = page_url docSlug x")
        case True
        with h Inr have "h = html" by simp
        with True sv(1) show ?thesis by simp
      next
        case False
        with y have "y \<in> set es" by auto
        with old h have "spec_decide (rows (world_of st)) (page_url docSlug y)
            (sha256_hex l (page_content l h)) = Unchanged"
          by (simp add: stored_pages_def)
        with sv(2)[OF False] show ?thesis by (simp add: spec_decide_def)
      qed
      then have "stored_pages l e docSlug (es @ [x]) ?w"
        unfolding stored_pages_def by blast
      then have "stored_pages l e docSlug (es @ [x])
          (world_of (record_result l e docSlug onProgress (length entries) ?r st))"
        by (simp add: stored_pages_def record_result_world f)
      with sv(3) Some show ?thesis by (simp add: record_result_world f)
    qed
  qed
  have "\<exists>st'. batch_loop l c e docSlug onProgress entries 0 st0 = Some st' \<and> ?J entries st'"
    by (rule run_invariant[where J = ?J, OF k])
       (use item in \<open>simp_all add: delay_def stored_pages_def resolved_source_def\<close>)
  then show ?thesis by blast
qed

text \<open>A run over pages that are all stored under their fingerprints writes no row.\<close>

lemma second_run_keeps_rows:
  assumes k: "0 < concurrency c"
    and up: "\<forall>n. content_store_up e n"
    and st: "resolved_source e (world_of st0) \<noteq> None \<longrightarrow> stored_pages l e docSlug entries (world_of st0)"
  shows "\<exists>st'. batch_loop l c e docSlug onProgress entries 0 st0 = Some st'
      \<and> rows (world_of st') = rows (world_of st0)
      \<and> next_id (world_of st') = next_id (world_of st0)"
proof -
  let ?J = "\<lambda>es st. rows (world_of st) = rows (world_of st0)
      \<and> next_id (world_of st) = next_id (world_of st0)
      \<and> resolved_source e (world_of st) = resolved_source e (world_of st0)"
  have item: "?J (es @ [x]) (record_result l e docSlug onProgress (length entries)
                               (scrapePage l e docSlug x) st)"
    if ent: "entries = es @ x # rest" and J: "?J es st" for es x rest st
  proof (cases "get_page e (page_url docSlug x)")
    case (Inl err)
    then show ?thesis
      using J by (simp add: record_result_world scrapePage_failed[OF Inl])
  next
    case (Inr html)
    let ?r = "scrapePage l e docSlug x"
    have r: "?r = extract_page l docSlug x html" by (rule scrapePage_fetched[OF Inr])
    have f: "success ?r" "url ?r = page_url docSlug x"
      "contentHash l ?r = sha256_hex l (page_content l html)"
      by (simp_all add: r extract_page_fields contentHash_def)
    show ?thesis
    proof (cases "resolved_source e (world_of st0)")
      case None
      with J have "resolved_source e (world_of st) = None" by simp
      from saveContent_unresolved[OF this, of l ?r docSlug] None J show ?thesis
        by (simp add: record_result_world f)
    next
      case (Some sid)
      with J have src: "resolved_source e (world_of st) = Some sid" by simp
      from st Some have "stored_pages l e docSlug entries (world_of st0)" by simp
      with Inr ent have "spec_decide (rows (world_of st0)) (page_url docSlug x)
          (sha256_hex l (page_content l html)) = Unchanged"
        by (simp add: stored_pages_def)
      with J have same: "spec_decide (rows (world_of st)) (url ?r) (contentHash l ?r) = Unchanged"
        by (simp add: f)
      from saveContent_unchanged[OF src up same] Some J show ?thesis
        by (simp add: record_result_world f)
    qed
  qed
  have "\<exists>st'. batch_loop l c e docSlug onProgress entries 0 st0 = Some st' \<and> ?J entries st'"
    by (rule run_invariant[where J = ?J, OF k])
       (use item in \<open>simp_all add: delay_def resolved_source_def\<close>)
  then show ?thesis by blast
qed

lemma merge_update_dedup_counters:
  "items_new (merge_update u j) = items_new j"
  "items_updated (merge_update u j) = items_updated j"
  "items_unchanged (merge_update u j) = items_unchanged j"
  by (cases u; simp)+

lemma updateJob_dedup_counters:
  "items_new (job (updateJob e u w)) = items_new (job w)"
  "items_updated (job (updateJob e u w)) = items_updated (job w)"
  "items_unchanged (job (updateJob e u w)) = items_unchanged (job w)"
  by (simp_all add: updateJob_job merge_update_dedup_counters)

lemma record_result_dedup_counters:
  "items_new (job (world_of (record_result l e d cb n r st))) = items_new (job (world_of st))"
  "items_updated (job (world_of (record_result l e d cb n r st))) = items_updated (job (world_of st))"
  "items_unchanged (job (world_of (record_result l e d cb n r st))) = items_unchanged (job (world_of st))"
  by (simp_all add: record_result_def Let_def updateJob_dedup_counters saveContent_keeps)

lemma run_dedup_counters:
  assumes k: "0 < concurrency c"
  shows "\<exists>st'. batch_loop l c e docSlug onProgress entries 0 st0 = Some st'
      \<and> items_new (job (world_of st')) = items_new (job (world_of st0))
      \<and> items_updated (job (world_of st')) = items_updated (job (world_of st0))
      \<and> items_unchanged (job (world_of st')) = items_unchanged (job (world_of st0))"
  by (rule run_invariant[where J = "\<lambda>es st.
        items_new (job (world_of st)) = items_new (job (world_of st0))
      \<and> items_updated (job (world_of st)) = items_updated (job (world_of st0))
      \<and> items_unchanged (job (world_of st)) = items_unchanged (job (world_of st0))", OF k])
     (simp_all add: record_result_dedup_counters delay_def)

lemma single_env_facts:
  "get_index single_env u = Inr (Some [intro_entry])"
  "content_store_up single_env n"
  "job_store_up single_env n"
  "source_row single_env = Some ''source-1''"
  "scrapePage demo_lib single_env ''react'' intro_entry
     = extract_page demo_lib ''react'' intro_entry ''<div class=_content>Intro text</div>''"
  by (simp_all add: single_env_def demo_env_def scrapePage_def page_url_def DEVDOCS_BASE_def
        intro_entry_def)

lemma intro_page_facts:
  "page_url ''react'' intro_entry = ''https://devdocs.io/react/intro''"
  "page_content demo_lib ''<div class=_content>Intro text</div>'' = ''Intro text''"
  "sha256_hex demo_lib x = ''sha256:'' @ x"
  by (simp_all add: page_url_def DEVDOCS_BASE_def intro_entry_def page_content_def demo_lib_def
        selection_text_def has_class_def split_regex_def is_space_def trim_def)

lemma first_run_world_facts:
  "rows first_run_world ''https://devdocs.io/react/intro''
     = Some (contentData (extract_page demo_lib ''react'' intro_entry
               ''<div class=_content>Intro text</div>'') ''source-1'' ''sha256:Intro text'' 0)"
  "sourceId first_run_world = Some ''source-1''"
  "db_calls first_run_world = 3"
  "next_id first_run_world = 1"
  "job_calls first_run_world = 3"
  "now first_run_world = 0"
  "items_new (job first_run_world) = 0"
  "status (job first_run_world) = Completed"
proof -
  note loop = batch_loop_single[of demo_config "[intro_entry]", unfolded demo_concurrency, simplified]
  show "rows first_run_world ''https://devdocs.io/react/intro''
     = Some (contentData (extract_page demo_lib ''react'' intro_entry
               ''<div class=_content>Intro text</div>'') ''source-1'' ''sha256:Intro text'' 0)"
    "sourceId first_run_world = Some ''source-1''"
    "db_calls first_run_world = 3"
    "next_id first_run_world = 1"
    "job_calls first_run_world = 3"
    "now first_run_world = 0"
    "items_new (job first_run_world) = 0"
    "status (job first_run_world) = Completed"
    by (simp_all add: first_run_world_def scrapeDoc_def getDocEntries_def single_env_facts loop
          run_batch_def slice_def demo_concurrency record_result_def Let_def extract_page_fields
          intro_page_facts saveContent_def updateJob_def fresh_world_def new_job_def contentHash_def)
qed

text \<open>
  Claim C3, as the spec has it: the second run over unchanged pages yields
  \<open>items_unchanged = total\<close>. After a first run over the site of one page, the second
  run finds the page stored under its fingerprint and makes one call to the content
  store, the lookup; it ends \<open>completed\<close> with \<open>total_urls = 1\<close>, and
  \<open>items_unchanged\<close> of its Job is \<open>0\<close>, not the total.
\<close>

theorem second_run_counterexample:
  "spec_decide (rows first_run_world) ''https://devdocs.io/react/intro'' ''sha256:Intro text'' = Unchanged
   \<and> fst (the second_run) = Inr \<lparr> c_success = 1, c_failed = 0, c_total = 1 \<rparr>
   \<and> status (job (snd (the second_run))) = Completed
   \<and> total_urls (job (snd (the second_run))) = 1
   \<and> db_calls (snd (the second_run)) = db_calls first_run_world + 1
   \<and> items_unchanged (job (snd (the second_run))) = 0
   \<and> items_unchanged (job (snd (the second_run))) \<noteq> total_urls (job (snd (the second_run)))"
proof -
  note loop = batch_loop_single[of demo_config "[intro_entry]", unfolded demo_concurrency, simplified]
  have d: "spec_decide (rows first_run_world) ''https://devdocs.io/react/intro'' ''sha256:Intro text'' = Unchanged"
    by (simp add: spec_decide_def first_run_world_facts contentData_def)
  have "fst (the second_run) = Inr \<lparr> c_success = 1, c_failed = 0, c_total = 1 \<rparr>
   \<and> status (job (snd (the second_run))) = Completed
   \<and> total_urls (job (snd (the second_run))) = 1
   \<and> db_calls (snd (the second_run)) = 4
   \<and> items_unchanged (job (snd (the second_run))) = 0"
    by (simp add: second_run_def scrapeDoc_def getDocEntries_def single_env_facts loop
          run_batch_def slice_def demo_concurrency record_result_def Let_def extract_page_fields
          intro_page_facts saveContent_def updateJob_def first_run_world_facts new_job_def
          contentHash_def contentData_def)
  with d show ?thesis by (simp add: first_run_world_facts)
qed

text \<open>
  Claim C3, amended. When the calls to the content store go through, a second run over
  the same index and the same pages, on a Job of its own, returns the counts of the first
  run and writes nothing to the content store: the table and the next row id are those
  the first run left. What the first run left depends on the source id, which the second
  run resolves as the first did. With a source id (the one the scraper has cached, or
  else the one of the row of \<open>knowledge_sources\<close> for DevDocs) every fetched page is
  stored under its fingerprint, so the second run decides \<open>Unchanged\<close> for each.
  Without one, \<open>saveContent\<close> returns at its guard in both runs: the first run has
  stored nothing, the table is the one from before it, and no decision is made.
  \<open>scrapeDoc\<close> does not write \<open>items_new\<close>, \<open>items_updated\<close> or
  \<open>items_unchanged\<close>: they keep the values of the Job as it was created.
\<close>

theorem second_run_writes_nothing:
  assumes idx: "get_index e (index_url docSlug) = Inr (Some entries)"
    and k: "0 < concurrency c"
    and up: "\<forall>n. content_store_up e n"
    and run1: "scrapeDoc l c e docSlug onProgress w = Some (r1, w1)"
  shows "\<exists>w2. scrapeDoc l c e docSlug onProgress (w1\<lparr> job := j2, job_log := [] \<rparr>) = Some (r1, w2)
      \<and> r1 = Inr \<lparr> c_success = length (filter (\<lambda>x. \<not> fetch_fails e docSlug x) entries),
                      c_failed = length (filter (fetch_fails e docSlug) entries),
                      c_total = length entries \<rparr>
      \<and> rows w2 = rows w1 \<and> next_id w2 = next_id w1
      \<and> resolved_source e w1 = resolved_source e w
      \<and> (resolved_source e w \<noteq> None \<longrightarrow> stored_pages l e docSlug entries w1)
      \<and> (resolved_source e w = None \<longrightarrow> rows w1 = rows w \<and> next_id w1 = next_id w)
      \<and> items_new (job w2) = items_new j2
      \<and> items_updated (job w2) = items_updated j2
      \<and> items_unchanged (job w2) = items_unchanged j2"
proof -
  let ?n = "length entries"
  let ?res = "Inr \<lparr> c_success = length (filter (\<lambda>x. \<not> fetch_fails e docSlug x) entries),
                    c_failed = length (filter (fetch_fails e docSlug) entries),
                    c_total = ?n \<rparr> :: js_error + Counts"
  \<comment> \<open>the first run\<close>
  let ?st0 = "\<lparr> world_of = updateJob e (Started ?n (now w)) w, successCount = 0, failedCount = 0 \<rparr>"
  from scrapeDoc_returns[OF idx k, of l onProgress w] run1 obtain st where
    loop1: "batch_loop l c e docSlug onProgress entries 0 ?st0 = Some st"
    and r1: "r1 = Inr \<lparr> c_success = successCount st, c_failed = failedCount st, c_total = ?n \<rparr>"
    and w1: "w1 = updateJob e (Finished (now (world_of st))) (world_of st)"
    by auto
  from run_counts[OF k, of l e docSlug onProgress entries ?st0] loop1 r1
  have r1': "r1 = ?res" by auto
  from first_run_stores[OF k up, of l docSlug onProgress entries ?st0] loop1
  have kept: "resolved_source e (world_of st) = resolved_source e w"
    and stored: "resolved_source e w \<noteq> None \<longrightarrow> stored_pages l e docSlug entries (world_of st)"
    by (auto simp: updateJob_resolved)
  have res1: "resolved_source e w1 = resolved_source e w"
    by (simp add: w1 updateJob_resolved kept)
  have stored1: "resolved_source e w \<noteq> None \<longrightarrow> stored_pages l e docSlug entries w1"
    using stored by (simp add: w1 stored_pages_def updateJob_fields)
  have nothing1: "rows w1 = rows w \<and> next_id w1 = next_id w" if none: "resolved_source e w = None"
  proof -
    have "resolved_source e (world_of ?st0) \<noteq> None
            \<longrightarrow> stored_pages l e docSlug entries (world_of ?st0)"
      using none by (simp add: updateJob_resolved)
    from second_run_keeps_rows[OF k up this, of onProgress] loop1
    show ?thesis by (auto simp: w1 updateJob_fields)
  qed
  \<comment> \<open>the second run, on a Job of its own\<close>
  let ?again = "w1\<lparr> job := j2, job_log := [] \<rparr>"
  let ?init = "\<lparr> world_of = updateJob e (Started ?n (now ?again)) ?again, successCount = 0, failedCount = 0 \<rparr>"
  from scrapeDoc_returns[OF idx k, of l onProgress ?again] obtain st2 where
    loop2: "batch_loop l c e docSlug onProgress entries 0 ?init = Some st2"
    and run2: "scrapeDoc l c e docSlug onProgress ?again
        = Some (Inr \<lparr> c_success = successCount st2, c_failed = failedCount st2, c_total = ?n \<rparr>,
                updateJob e (Finished (now (world_of st2))) (world_of st2))"
    by blast
  let ?w2 = "updateJob e (Finished (now (world_of st2))) (world_of st2)"
  from run_counts[OF k, of l e docSlug onProgress entries ?init] loop2
  have r2: "Inr \<lparr> c_success = successCount st2, c_failed = failedCount st2, c_total = ?n \<rparr> = r1"
    by (auto simp: r1')
  have init: "rows (world_of ?init) = rows w1" "next_id (world_of ?init) = next_id w1"
    "resolved_source e (world_of ?init) = resolved_source e w1"
    "job (world_of ?init) = job (updateJob e (Started ?n (now ?again)) ?again)"
    by (simp_all add: updateJob_fields resolved_source_def)
  have "resolved_source e (world_of ?init) \<noteq> None \<longrightarrow> stored_pages l e docSlug entries (world_of ?init)"
    using stored1 unfolding init(3) res1 by (simp add: stored_pages_def updateJob_fields)
  from second_run_keeps_rows[OF k up this, of onProgress] loop2
  have same: "rows (world_of st2) = rows w1" "next_id (world_of st2) = next_id w1"
    by (auto simp: updateJob_fields)
  from run_dedup_counters[OF k, of l e docSlug onProgress entries ?init] loop2
  have cnt: "items_new (job (world_of st2)) = items_new j2"
    "items_updated (job (world_of st2)) = items_updated j2"
    "items_unchanged (job (world_of st2)) = items_unchanged j2"
    by (auto simp: updateJob_dedup_counters)
  have "rows ?w2 = rows w1" "next_id ?w2 = next_id w1"
    "items_new (job ?w2) = items_new j2" "items_updated (job ?w2) = items_updated j2"
    "items_unchanged (job ?w2) = items_unchanged j2"
    by (simp_all add: updateJob_fields updateJob_dedup_counters same cnt)
  with run2 r2 r1' res1 stored1 nothing1 show ?thesis by simp
qed

theorem second_run_writes_nothing_witness:
  "\<exists>r1 w1 w2 r3 w3 w4.
        scrapeDoc demo_lib demo_config demo_env ''react'' False fresh_world = Some (r1, w1)
      \<and> scrapeDoc demo_lib demo_config demo_env ''react'' False (w1\<lparr> job := new_job, job_log := [] \<rparr>)
          = Some (r1, w2)
      \<and> r1 = Inr \<lparr> c_success = 2, c_failed = 1, c_total = 3 \<rparr>
      \<and> rows w2 = rows w1 \<and> next_id w2 = next_id w1
      \<and> stored_pages demo_lib demo_env ''react'' demo_entries w1
      \<and> items_new (job w2) = 0 \<and> items_updated (job w2) = 0 \<and> items_unchanged (job w2) = 0
      \<and> scrapeDoc demo_lib demo_config no_source_env ''react'' False fresh_world = Some (r3, w3)
      \<and> scrapeDoc demo_lib demo_config no_source_env ''react'' False
            (w3\<lparr> job := new_job, job_log := [] \<rparr>) = Some (r3, w4)
      \<and> r3 = Inr \<lparr> c_success = 2, c_failed = 1, c_total = 3 \<rparr>
      \<and> rows w4 = rows w3 \<and> rows w3 = Map.empty \<and> next_id w3 = 0"
proof -
  have src: "resolved_source demo_env fresh_world \<noteq> None"
    by (simp add: resolved_source_def demo_env_def split: option.splits)
  have idx: "get_index demo_env (index_url ''react'') = Inr (Some demo_entries)"
    by (simp add: demo_env_def index_url_def DEVDOCS_BASE_def)
  have k: "0 < concurrency demo_config"
    by (simp add: demo_config_def new_scraper_def or_default_def)
  have up: "\<forall>n. content_store_up demo_env n"
    by (simp add: demo_env_def)
  have n: "length (filter (\<lambda>x. \<not> fetch_fails demo_env ''react'' x) demo_entries) = 2"
    "length (filter (fetch_fails demo_env ''react'') demo_entries) = 1"
    "length demo_entries = 3"
    using demo_fetch_fails[of "content_store_up demo_env"]
    by (simp_all add: demo_entries_def intro_entry_def hooks_entry_def api_entry_def)
  from scrapeDoc_returns[OF idx k, of demo_lib False fresh_world] obtain r1 w1 where
    run1: "scrapeDoc demo_lib demo_config demo_env ''react'' False fresh_world = Some (r1, w1)"
    by blast
  from second_run_writes_nothing[OF idx k up run1, of new_job] src
  obtain w2 where a:
    "scrapeDoc demo_lib demo_config demo_env ''react'' False (w1\<lparr> job := new_job, job_log := [] \<rparr>)
          = Some (r1, w2)
      \<and> r1 = Inr \<lparr> c_success = 2, c_failed = 1, c_total = 3 \<rparr>
      \<and> rows w2 = rows w1 \<and> next_id w2 = next_id w1
      \<and> stored_pages demo_lib demo_env ''react'' demo_entries w1
      \<and> items_new (job w2) = 0 \<and> items_updated (job w2) = 0 \<and> items_unchanged (job w2) = 0"
    unfolding n by (auto simp: new_job_def)
  have nosrc: "resolved_source no_source_env fresh_world = None"
    by (simp add: resolved_source_def no_source_env_def fresh_world_def)
  have idx': "get_index no_source_env (index_url ''react'') = Inr (Some demo_entries)"
    by (simp add: no_source_env_def demo_env_def index_url_def DEVDOCS_BASE_def)
  have up': "\<forall>n. content_store_up no_source_env n"
    by (simp add: no_source_env_def demo_env_def)
  have ff: "fetch_fails no_source_env ''react'' x = (entry_path x = ''hooks'')" for x
    by (simp add: fetch_fails_def no_source_env_def demo_env_def page_url_def DEVDOCS_BASE_def)
  have n': "length (filter (\<lambda>x. \<not> fetch_fails no_source_env ''react'' x) demo_entries) = 2"
    "length (filter (fetch_fails no_source_env ''react'') demo_entries) = 1"
    unfolding ff
    by (simp_all add: demo_entries_def intro_entry_def hooks_entry_def api_entry_def)
  from scrapeDoc_returns[OF idx' k, of demo_lib False fresh_world] obtain r3 w3 where
    run3: "scrapeDoc demo_lib demo_config no_source_env ''react'' False fresh_world = Some (r3, w3)"
    by blast
  from second_run_writes_nothing[OF idx' k up' run3, of new_job] nosrc
  obtain w4 where b:
    "scrapeDoc demo_lib demo_config no_source_env ''react'' False
            (w3\<lparr> job := new_job, job_log := [] \<rparr>) = Some (r3, w4)
      \<and> r3 = Inr \<lparr> c_success = 2, c_failed = 1, c_total = 3 \<rparr>
      \<and> rows w4 = rows w3 \<and> rows w3 = Map.empty \<and> next_id w3 = 0"
    unfolding n' n by (auto simp: fresh_world_def)
  from run1 a run3 b show ?thesis by blast
qed

end
